theory Spec2Isabelle
  imports Complex_Main "HOL-Library.Word"
begin

section \<open>The atom viewer of ase.gui (src/ase/gui/view.py)\<close>

text \<open>
  The class \<open>View\<close> turns a trajectory frame and a camera into draw calls, and pointer events
  into selection and camera changes. The embedding below follows \<open>view.py\<close> method by method.
  numpy's float arrays are modelled by exact reals: a coordinate is a \<open>real\<close>, a position a triple
  of reals, a 3x3 matrix a triple of rows. Rounding error is therefore outside the model; every
  place where the source rounds to an integer on purpose (\<open>.round().astype(int)\<close>, \<open>int(...)\<close>)
  is written out.
\<close>

subsection \<open>Vectors and matrices\<close>

type_synonym vec3 = "real \<times> real \<times> real"
type_synonym mat3 = "vec3 \<times> vec3 \<times> vec3"

text \<open>\<open>v[i]\<close> and \<open>M[i]\<close> for an index that the source takes from \<open>range(3)\<close> or reduces
  modulo 3.\<close>

fun comp :: "vec3 \<Rightarrow> nat \<Rightarrow> real" where
  "comp (x, y, z) i = (if i = 0 then x else if i = 1 then y else z)"

fun row :: "mat3 \<Rightarrow> nat \<Rightarrow> vec3" where
  "row (r0, r1, r2) i = (if i = 0 then r0 else if i = 1 then r1 else r2)"

fun set_comp :: "nat \<Rightarrow> real \<Rightarrow> vec3 \<Rightarrow> vec3" where
  "set_comp i a (x, y, z) = (if i = 0 then (a, y, z) else if i = 1 then (x, a, z) else (x, y, a))"

fun vdot :: "vec3 \<Rightarrow> vec3 \<Rightarrow> real" where
  "vdot (a, b, c) (x, y, z) = a * x + b * y + c * z"

fun vadd :: "vec3 \<Rightarrow> vec3 \<Rightarrow> vec3" where
  "vadd (a, b, c) (x, y, z) = (a + x, b + y, c + z)"

fun vsub :: "vec3 \<Rightarrow> vec3 \<Rightarrow> vec3" where
  "vsub (a, b, c) (x, y, z) = (a - x, b - y, c - z)"

fun vscale :: "real \<Rightarrow> vec3 \<Rightarrow> vec3" where
  "vscale k (x, y, z) = (k * x, k * y, k * z)"

subsection \<open>Geometry builder: the cell grid\<close>

text \<open>
  \<open>n = max(2, int(d / 0.3))\<close> with \<open>d = sqrt(np.dot(v, v))\<close>. Python's \<open>int\<close> truncates towards
  zero; the quotient is never negative, so truncation is the floor.
\<close>

definition ticks :: "vec3 \<Rightarrow> nat" where
  "ticks v = max 2 (nat \<lfloor>sqrt (vdot v v) / 0.3\<rfloor>)"

text \<open>
  \<open>make_box\<close>: \<open>B1\<close> and \<open>B2\<close> are arrays of shape \<open>(2, 2, sum(nn), 3)\<close>, filled block by block
  (one block of \<open>n\<close> rows per lattice vector \<open>c\<close>) and then reshaped to \<open>(-1, 3)\<close>, which lists
  the rows with \<open>i\<close> outermost, then \<open>j\<close>, then the blocks. A row of \<open>B1\<close> holds the fractional
  start of a tick, the same row of \<open>B2\<close> its end. With the unit cell hidden both are empty.
\<close>

definition box_row :: "nat \<Rightarrow> nat \<Rightarrow> nat \<Rightarrow> real \<Rightarrow> vec3" where
  "box_row c i j a =
     set_comp ((c + 2) mod 3) (real j) (set_comp ((c + 1) mod 3) (real i) (set_comp c a (0, 0, 0)))"

definition box_block :: "bool \<Rightarrow> nat list \<Rightarrow> nat \<Rightarrow> nat \<Rightarrow> nat \<Rightarrow> vec3 list" where
  "box_block ends nn i j c =
     (let n = nn ! c;
          h = 1 / (2 * real n - 1)
      in map (\<lambda>k. box_row c i j (real k * (2 * h) + (if ends then h else 0))) [0..<n])"

definition box_rows :: "bool \<Rightarrow> nat list \<Rightarrow> vec3 list" where
  "box_rows ends nn =
     concat (map (\<lambda>(i, j). concat (map (box_block ends nn i j) [0, 1, 2]))
                 [(0, 0), (0, 1), (1, 0), (1, 1)])"

definition make_box :: "bool \<Rightarrow> mat3 \<Rightarrow> vec3 list \<times> vec3 list" where
  "make_box show_unit_cell V =
     (if \<not> show_unit_cell then ([], [])
      else let nn = map (\<lambda>c. ticks (row V c)) [0, 1, 2]
           in (box_rows False nn, box_rows True nn))"

text \<open>
  \<open>plot_cell\<close> builds the same ticks in Cartesian coordinates: for each lattice vector \<open>c\<close> and
  each of the four \<open>(i, j)\<close>, the \<open>n\<close> points \<open>k * 2h + i * V[(c+1)%3] + j * V[(c+2)%3]\<close> with
  \<open>h = v / (2n - 1)\<close>, and their ends \<open>+ h\<close>; the pieces are concatenated in loop order.
\<close>

definition plot_cell_piece :: "mat3 \<Rightarrow> nat \<Rightarrow> nat \<times> nat \<Rightarrow> vec3 list" where
  "plot_cell_piece V c ij =
     (let v = row V c;
          n = ticks v;
          h = vscale (1 / (2 * real n - 1)) v
      in map (\<lambda>k. vadd (vadd (vscale (real k) (vscale 2 h))
                              (vscale (real (fst ij)) (row V ((c + 1) mod 3))))
                        (vscale (real (snd ij)) (row V ((c + 2) mod 3))))
             [0..<n])"

definition plot_cell :: "mat3 \<Rightarrow> vec3 list \<times> vec3 list" where
  "plot_cell V =
     (let R1 = concat (map (\<lambda>c. concat (map (plot_cell_piece V c) [(0, 0), (0, 1), (1, 0), (1, 1)]))
                           [0, 1, 2]);
          R2 = concat (map (\<lambda>c. concat (map (\<lambda>ij. map (\<lambda>p. vadd p (vscale (1 / (2 * real (ticks (row V c)) - 1)) (row V c)))
                                                      (plot_cell_piece V c ij))
                                          [(0, 0), (0, 1), (1, 0), (1, 1)]))
                           [0, 1, 2])
      in (R1, R2))"

definition cubic_cell :: mat3 where
  "cubic_cell = ((1, 0, 0), (0, 1, 0), (0, 0, 1))"

subsection \<open>Errors\<close>

text \<open>
  The exceptions the modelled methods can raise, and numpy's silent failure: a float division
  by zero does not raise, it puts \<open>nan\<close> (or \<open>inf\<close>) into the array and warns. The model
  reports it as \<open>FloatingPointError\<close>, the name numpy itself uses for it, so that it cannot
  be mistaken for a number.
\<close>

datatype py_error =
  ShapeError | NameError | AttributeError | IndexError | ValueError | FloatingPointError

text \<open>
  A method either raises or returns: \<open>Inl\<close> the exception, \<open>Inr\<close> the result.
  \<open>then_do\<close> runs the rest of a method on the result of a step that may raise;
  \<open>lookup xs i\<close> is \<open>xs[i]\<close> for an index that is not negative.
\<close>

fun then_do :: "py_error + 'a \<Rightarrow> ('a \<Rightarrow> py_error + 'b) \<Rightarrow> py_error + 'b" where
  "then_do (Inl e) f = Inl e"
| "then_do (Inr v) f = f v"

definition lookup :: "'a list \<Rightarrow> nat \<Rightarrow> py_error + 'a" where
  "lookup xs i = (if i < length xs then Inr (xs ! i) else Inl IndexError)"

subsection \<open>Geometry builder: the bond graph\<close>

text \<open>
  A row of \<open>self.bonds\<close> is \<open>(a, b, n1, n2, n3)\<close>: two atom indices and the periodic offset of
  the second atom's image. The array has numpy's default integer type, 64 bits wide; the
  offsets can be negative and are kept as machine words, the atom indices come from
  \<open>range(natoms)\<close> and the neighbour list and are naturals.

  \<open>ase.neighborlist.NeighborList\<close> is a collaborator of \<open>bind\<close>, taken as a parameter: the two
  counters \<open>bind\<close> reads and the function it calls. \<open>get_neighbors(a)\<close> returns two arrays of
  one length, indices and offsets; they are zipped here.
\<close>

type_synonym npint = "64 word"
type_synonym offset = "npint \<times> npint \<times> npint"
type_synonym bond = "nat \<times> nat \<times> offset"

record neighborlist =
  nneighbors :: nat
  npbcneighbors :: nat
  get_neighbors :: "nat \<Rightarrow> (nat \<times> offset) list"

text \<open>\<open>offsets.any(1)\<close>: some component is non-zero.\<close>

fun periodic :: "offset \<Rightarrow> bool" where
  "periodic (n1, n2, n3) = (n1 \<noteq> 0 \<or> n2 \<noteq> 0 \<or> n3 \<noteq> 0)"

fun negated :: "offset \<Rightarrow> offset" where
  "negated (n1, n2, n3) = (- n1, - n2, - n3)"

text \<open>The right-hand sides of the three assignments after the loop: columns 0 and 1
  swapped, the offset negated.\<close>

fun mirror :: "bond \<Rightarrow> bond" where
  "mirror (a, b, off) = (b, a, negated off)"

fun bond_offset :: "bond \<Rightarrow> offset" where
  "bond_offset (a, b, off) = off"

text \<open>
  numpy's assignment of a list of values to a slice of \<open>t\<close> rows: the lengths agree, or there
  is a single value, which is broadcast over the slice (over no row at all when the slice is
  empty); anything else raises \<open>ValueError\<close>. The result is what the slice holds afterwards.
\<close>

definition assign :: "nat \<Rightarrow> 'a list \<Rightarrow> py_error + 'a list" where
  "assign t vs =
     (if length vs = t then Inr vs
      else if length vs = 1 then Inr (replicate t (hd vs))
      else Inl ValueError)"

text \<open>\<open>for a2 in indices: self.coordination[a2] += 1\<close>.\<close>

fun bump :: "nat list \<Rightarrow> nat list \<Rightarrow> py_error + nat list" where
  "bump c [] = Inr c"
| "bump c (a2 # as) = (if a2 < length c then bump (c[a2 := c ! a2 + 1]) as else Inl IndexError)"

text \<open>
  The loop over \<open>range(natoms)\<close>. The state is \<open>n1\<close>, the rows of the bond array written so
  far, and the coordination numbers. Atom \<open>a\<close> with its \<open>len(indices)\<close> neighbours is counted,
  and the slice \<open>n1:n2\<close> of the array, cut off at the \<open>nb\<close> rows the array has, receives
  \<open>a\<close>, the neighbours and their offsets.
\<close>

fun forward ::
  "nat \<Rightarrow> (nat \<Rightarrow> (nat \<times> offset) list) \<Rightarrow> nat list \<Rightarrow> nat \<times> bond list \<times> nat list \<Rightarrow>
   py_error + nat \<times> bond list \<times> nat list" where
  "forward nb g [] st = Inr st"
| "forward nb g (a # as) (n1, rows, c) =
     then_do (bump (c[a := c ! a + length (g a)]) (map fst (g a))) (\<lambda>c'.
     then_do (assign (min (n1 + length (g a)) nb - min n1 nb)
                (map (\<lambda>(a2, off). (a, a2, off)) (g a))) (\<lambda>new.
       forward nb g as (n1 + length (g a), rows @ new, c')))"

text \<open>
  \<open>bind\<close>. With bonds hidden the bond array is empty and the coordination numbers stay what
  they were; with \<open>nb = 0\<close> the array is empty and the coordination numbers are zero.
  Otherwise the array has \<open>nb = nneighbors + npbcneighbors\<close> rows and the loop fills the
  first \<open>n2\<close> of them. Without atoms the loop never binds \<open>n2\<close>, and line 177 raises
  \<open>NameError\<close>. The mask \<open>i = self.bonds[:n2, 2:].any(1)\<close> has one entry for each of the first
  \<open>n2\<close> rows; \<open>self.bonds[i, 1]\<close> indexes all \<open>nb\<close> rows with it, and numpy (since 1.13)
  raises \<open>IndexError\<close> for a boolean mask that is not as long as the axis it indexes. So the
  mirror images of the rows selected are assigned to the rows from \<open>n2\<close> on only when there
  is no such row left.
\<close>

definition bind ::
  "bool \<Rightarrow> nat \<Rightarrow> neighborlist \<Rightarrow> nat list option \<Rightarrow> py_error + bond list \<times> nat list option" where
  "bind show_bonds natoms nl coordination =
     (if \<not> show_bonds then Inr ([], coordination)
      else let nb = nneighbors nl + npbcneighbors nl
           in if nb = 0 then Inr ([], Some (replicate natoms 0))
              else
                then_do (forward nb (get_neighbors nl) [0..<natoms] (0, [], replicate natoms 0))
                  (\<lambda>(n2, rows, c).
                     if natoms = 0 then Inl NameError
                     else if length rows \<noteq> nb then Inl IndexError
                     else
                       then_do (assign (nb - min n2 nb)
                                  (map mirror (filter (\<lambda>b. periodic (bond_offset b)) rows)))
                         (\<lambda>mirrored. Inr (rows @ mirrored, Some c))))"

text \<open>Two atoms, one bond inside the cell and one across the first cell boundary, counted as
  a neighbour list counts them: two pairs, one of them periodic.\<close>

definition nl_example :: neighborlist where
  "nl_example = \<lparr> nneighbors = 2, npbcneighbors = 1,
      get_neighbors = (\<lambda>a. if a = 0 then [(1, (0, 0, 0)), (1, (1, 0, 0))] else []) \<rparr>"

text \<open>The same two atoms with the bond inside the cell only.\<close>

definition nl_inside :: neighborlist where
  "nl_inside = \<lparr> nneighbors = 1, npbcneighbors = 0,
      get_neighbors = (\<lambda>a. if a = 0 then [(1, (0, 0, 0))] else []) \<rparr>"

subsection \<open>More on vectors and matrices\<close>

type_synonym vec2 = "real \<times> real"

fun col :: "mat3 \<Rightarrow> nat \<Rightarrow> vec3" where
  "col (r0, r1, r2) j = (comp r0 j, comp r1 j, comp r2 j)"

text \<open>\<open>np.dot(v, M)\<close>, \<open>np.dot(M, v)\<close>, \<open>np.dot(M, N)\<close> and \<open>M.T\<close>.\<close>

definition vecmat :: "vec3 \<Rightarrow> mat3 \<Rightarrow> vec3" where
  "vecmat v M = (vdot v (col M 0), vdot v (col M 1), vdot v (col M 2))"

definition matvec :: "mat3 \<Rightarrow> vec3 \<Rightarrow> vec3" where
  "matvec M v = (vdot (row M 0) v, vdot (row M 1) v, vdot (row M 2) v)"

definition matmul :: "mat3 \<Rightarrow> mat3 \<Rightarrow> mat3" where
  "matmul M N = (vecmat (row M 0) N, vecmat (row M 1) N, vecmat (row M 2) N)"

definition transpose3 :: "mat3 \<Rightarrow> mat3" where
  "transpose3 M = (col M 0, col M 1, col M 2)"

definition identity3 :: mat3 where
  "identity3 = ((1, 0, 0), (0, 1, 0), (0, 0, 1))"

text \<open>\<open>V.mean(0)\<close> of a list of rows that is not empty.\<close>

definition mean0 :: "vec3 list \<Rightarrow> vec3" where
  "mean0 vs = vscale (1 / real (length vs)) (foldr vadd vs (0, 0, 0))"

text \<open>
  Columns of unit length, mutually orthogonal: the six scalar products of the columns.
\<close>

definition orthonormal :: "mat3 \<Rightarrow> bool" where
  "orthonormal M =
     (vdot (col M 0) (col M 0) = 1 \<and> vdot (col M 1) (col M 1) = 1 \<and> vdot (col M 2) (col M 2) = 1 \<and>
      vdot (col M 0) (col M 1) = 0 \<and> vdot (col M 0) (col M 2) = 0 \<and> vdot (col M 1) (col M 2) = 0)"

subsection \<open>Rounding\<close>

text \<open>
  numpy's \<open>round\<close> (and Python 3's \<open>round\<close> to an integer) round half to even; \<open>int(x)\<close>
  truncates towards zero.
\<close>

definition rint :: "real \<Rightarrow> int" where
  "rint a =
     (let f = \<lfloor>a\<rfloor>; e = a - of_int f
      in if e < 1 / 2 then f else if 1 / 2 < e then f + 1 else if even f then f else f + 1)"

definition trunc :: "real \<Rightarrow> int" where
  "trunc a = (if 0 \<le> a then \<lfloor>a\<rfloor> else \<lceil>a\<rceil>)"

subsection \<open>The state of a view\<close>

text \<open>
  Pointer events, as the host window hands them over: \<open>event.modifier\<close> is \<open>'ctrl'\<close>,
  \<open>'shift'\<close> or something else.
\<close>

datatype modifier = NoModifier | Ctrl | Shift

record event =
  ev_button :: nat
  ev_x :: real
  ev_y :: real
  ev_time :: int
  ev_modifier :: modifier

text \<open>What \<open>press\<close> stores on the view; the attributes do not exist before the first press.\<close>

record pressed =
  button :: nat
  xy :: vec2
  t0 :: int
  axes0 :: mat3
  center0 :: vec3

text \<open>
  The draw calls of the host window (\<open>self.window.circle\<close>, \<open>.line\<close>, \<open>.text\<close>,
  \<open>.canvas.create_rectangle\<close>) and of the pixmap (\<open>self.pixmap.draw_line\<close>, \<open>.draw_arc\<close>,
  \<open>.draw_polygon\<close>), as values. What is on the window is the list of calls since the last
  \<open>clear\<close>.
\<close>

datatype draw_call =
    Circle string bool int int int int
  | Line int int int int "real option"
  | Text int int string "string option" "string option"
  | Rectangle real real int int
  | PixLine int int int int
  | Arc bool int int int int int int
  | Polygon bool "(int \<times> int) list"

text \<open>
  \<open>self.images\<close>, as far as the modelled methods read it, for the frame on display:
  \<open>D\<close> is \<open>images.D[frame]\<close>, \<open>A\<close> is \<open>images.A[frame]\<close> and \<open>Q\<close> is \<open>images.Q[frame]\<close>, one
  quaternion per atom; \<open>shapes\<close> holds the three semi-axes of every atom, or is \<open>None\<close>.
\<close>

type_synonym quaternion = "real \<times> real \<times> real \<times> real"

record images =
  natoms :: nat
  nimages :: nat
  r :: "real list"
  selected :: "bool list"
  selected_ordered :: "nat list"
  visible :: "bool list"
  dynamic :: "bool list"
  D :: vec3
  A :: mat3
  shapes :: "vec3 list option"
  Q :: "quaternion list"

text \<open>\<open>self.window\<close>: its size, the menu toggles, and what has been drawn.\<close>

record window =
  window_size :: "int \<times> int"
  show_unit_cell :: bool
  show_bonds :: bool
  show_axes :: bool
  show_velocities :: bool
  show_forces :: bool
  canvas :: "draw_call list"

text \<open>
  The view itself. \<open>labels\<close> holds the labels of the frame on display, already as strings;
  \<open>colors\<close> is what \<open>get_colors()\<close> returns; \<open>vectors\<close> is \<open>self.vectors[frame]\<close> once
  \<open>show_vectors\<close> has set it; \<open>atoms_to_rotate_0\<close> exists once a manipulation mode was
  entered.
\<close>

record view =
  images :: images
  window :: window
  frame :: nat
  X :: "vec3 list"
  B :: "vec3 list"
  B1 :: "vec3 list"
  axes :: mat3
  scale :: real
  center :: vec3
  P :: "vec2 list"
  indices :: "nat list"
  press_state :: "pressed option"
  labels :: "string list option"
  colors :: "string list"
  vectors :: "vec3 list option"
  light_green_markings :: bool
  atoms_to_rotate_0 :: "bool list option"
  orient_normal :: vec3
  menu_change :: bool

subsection \<open>Projector\<close>

text \<open>
  The first lines of \<open>draw\<close>. \<open>axes = self.scale * self.axes * (1, -1, 1)\<close> scales the matrix
  and flips its second column; \<open>offset\<close> is the projected centre, moved by half the window
  size in the screen plane; \<open>X = np.dot(self.X, axes) - offset\<close> projects every drawable
  point: the atoms first, then the starts of the cell ticks and of the bonds.
\<close>

fun flip_row :: "real \<Rightarrow> vec3 \<Rightarrow> vec3" where
  "flip_row k (a, b, c) = (k * a * 1, k * b * (- 1), k * c * 1)"

definition draw_axes_matrix :: "view \<Rightarrow> mat3" where
  "draw_axes_matrix s =
     (case axes s of (r0, r1, r2) \<Rightarrow> (flip_row (scale s) r0, flip_row (scale s) r1, flip_row (scale s) r2))"

definition draw_offset :: "view \<Rightarrow> vec3" where
  "draw_offset s =
     (case vecmat (center s) (draw_axes_matrix s) of
        (ox, oy, oz) \<Rightarrow>
          (ox - 0.5 * real_of_int (fst (window_size (window s))),
           oy - 0.5 * real_of_int (snd (window_size (window s))), oz))"

definition project :: "view \<Rightarrow> vec3 \<Rightarrow> vec3" where
  "project s v = vsub (vecmat v (draw_axes_matrix s)) (draw_offset s)"

definition draw_X :: "view \<Rightarrow> vec3 list" where
  "draw_X s = map (project s) (X s)"

text \<open>\<open>X[:, 2]\<close>, the key of the draw order.\<close>

definition depths :: "view \<Rightarrow> real list" where
  "depths s = map (\<lambda>(px, py, pz). pz) (draw_X s)"

text \<open>
  Screen radii: \<open>r = self.images.r * (0.65 * self.scale)\<close> with bonds on display,
  \<open>self.images.r * self.scale\<close> without.
\<close>

definition draw_r :: "view \<Rightarrow> real list" where
  "draw_r s =
     (if show_bonds (window s) then map (\<lambda>q. q * (0.65 * scale s)) (r (images s))
      else map (\<lambda>q. q * scale s) (r (images s)))"

definition draw_P :: "view \<Rightarrow> vec2 list" where
  "draw_P s = map (\<lambda>(px, py, pz). (px, py)) (take (natoms (images s)) (draw_X s))"

text \<open>\<open>A = (P - r[:, None]).round().astype(int)\<close>: the upper left corner of an atom's box;
  \<open>d = (2 * r).round().astype(int)\<close>: its side.\<close>

definition draw_A :: "view \<Rightarrow> (int \<times> int) list" where
  "draw_A s = map (\<lambda>((px, py), q). (rint (px - q), rint (py - q))) (zip (draw_P s) (draw_r s))"

definition draw_d :: "view \<Rightarrow> int list" where
  "draw_d s = map (\<lambda>q. rint (2 * q)) (draw_r s)"

definition draw_X1 :: "view \<Rightarrow> (int \<times> int) list" where
  "draw_X1 s = map (\<lambda>(px, py, pz). (rint px, rint py)) (drop (natoms (images s)) (draw_X s))"

definition draw_X2 :: "view \<Rightarrow> (int \<times> int) list" where
  "draw_X2 s = map (\<lambda>b. case project s b of (px, py, pz) \<Rightarrow> (rint px, rint py)) (B s)"

definition draw_disp :: "view \<Rightarrow> int \<times> int" where
  "draw_disp s =
     (case vecmat (D (images s)) (draw_axes_matrix s) of (px, py, pz) \<Rightarrow> (rint px, rint py))"

subsection \<open>Renderer\<close>

text \<open>
  \<open>math.atan2(y, x)\<close> on finite arguments; the arguments of \<open>arrow\<close> are differences of
  integers, so there is no negative zero.
\<close>

definition atan2 :: "real \<Rightarrow> real \<Rightarrow> real" where
  "atan2 b a =
     (if 0 < a then arctan (b / a)
      else if a < 0 then (if 0 \<le> b then arctan (b / a) + pi else arctan (b / a) - pi)
      else if 0 < b then pi / 2 else if b < 0 then - (pi / 2) else 0)"

text \<open>
  \<open>arrow(begin, end)\<close>: the shaft from \<open>begin\<close> to \<open>end\<close>, both rounded, and two barbs that
  end in the rounded \<open>end\<close>. \<open>length\<close> is the length of the shaft in the screen plane, cut
  off at \<open>0.3 * self.scale\<close>; the barbs start at distance \<open>length\<close> from the unrounded \<open>end\<close>,
  in the directions \<open>angle - 0.3\<close> and \<open>angle + 0.3\<close>.
\<close>

definition arrow_length :: "real \<Rightarrow> vec3 \<Rightarrow> vec3 \<Rightarrow> real" where
  "arrow_length k begin end =
     (case vsub end begin of (v0, v1, v2) \<Rightarrow> min (sqrt (v0\<^sup>2 + v1\<^sup>2)) (0.3 * k))"

definition arrow_angle :: "vec3 \<Rightarrow> vec3 \<Rightarrow> real" where
  "arrow_angle begin end =
     (case (begin, end) of
        ((b0, b1, b2), (e0, e1, e2)) \<Rightarrow>
          atan2 (real_of_int (rint e1 - rint b1)) (real_of_int (rint e0 - rint b0)) + pi)"

definition arrow :: "real \<Rightarrow> vec3 \<Rightarrow> vec3 \<Rightarrow> draw_call list" where
  "arrow k begin end =
     (case (begin, end) of
        ((b0, b1, b2), (e0, e1, e2)) \<Rightarrow>
          let len = arrow_length k begin end;
              angle = arrow_angle begin end;
              x1 = rint (e0 + len * cos (angle - 0.3));
              y1 = rint (e1 + len * sin (angle - 0.3));
              x2 = rint (e0 + len * cos (angle + 0.3));
              y2 = rint (e1 + len * sin (angle + 0.3))
          in [PixLine (rint b0) (rint b1) (rint e0) (rint e1),
              PixLine x1 y1 (rint e0) (rint e1),
              PixLine x2 y2 (rint e0) (rint e1)])"

text \<open>
  The painting loop of \<open>draw\<close>, one index of the draw order at a time. For an atom that is
  visible: its circle, its label, a cross when it is constrained, its vector. The marking of
  the atoms to rotate calls \<open>arc\<close>, a name that \<open>view.py\<close> neither defines nor imports:
  reaching that call raises \<open>NameError\<close>.
\<close>

definition draw_V :: "view \<Rightarrow> py_error + vec3 list option" where
  "draw_V s =
     (if show_velocities (window s) \<or> show_forces (window s) then
        (case vectors s of
           None \<Rightarrow> Inl AttributeError
         | Some vs \<Rightarrow> Inr (Some (map (\<lambda>v. vecmat v (draw_axes_matrix s)) vs)))
      else Inr None)"

definition paint_label :: "view \<Rightarrow> nat \<Rightarrow> int \<times> int \<Rightarrow> py_error + draw_call list" where
  "paint_label s a corner =
     (case labels s of
        None \<Rightarrow> Inr []
      | Some ls \<Rightarrow> then_do (lookup ls a) (\<lambda>l. Inr [Text (fst corner) (snd corner) l None None]))"

definition paint_cross :: "int \<times> int \<Rightarrow> int \<Rightarrow> draw_call list" where
  "paint_cross corner ra =
     (let R1 = trunc (0.14644 * real_of_int ra);
          R2 = trunc (0.85355 * real_of_int ra)
      in [Line (fst corner + R1) (snd corner + R1) (fst corner + R2) (snd corner + R2) None,
          Line (fst corner + R2) (snd corner + R1) (fst corner + R1) (snd corner + R2) None])"

definition paint_vector :: "view \<Rightarrow> vec3 list option \<Rightarrow> nat \<Rightarrow> py_error + draw_call list" where
  "paint_vector s V a =
     (case V of
        None \<Rightarrow> Inr []
      | Some vs \<Rightarrow>
          then_do (lookup (draw_X s) a) (\<lambda>p.
          then_do (lookup vs a) (\<lambda>v. Inr (arrow (scale s) p (vadd p v)))))"

definition paint_visible :: "view \<Rightarrow> vec3 list option \<Rightarrow> nat \<Rightarrow> int \<Rightarrow> py_error + draw_call list" where
  "paint_visible s V a ra =
     then_do (lookup (colors s) a) (\<lambda>colour.
     then_do (lookup (selected (images s)) a) (\<lambda>sel.
     then_do (lookup (draw_A s) a) (\<lambda>corner.
     then_do (paint_label s a corner) (\<lambda>label.
     then_do (lookup (dynamic (images s)) a) (\<lambda>dyn.
     then_do (paint_vector s V a) (\<lambda>vector.
       Inr ([Circle colour sel (fst corner) (snd corner) (fst corner + ra) (snd corner + ra)]
            @ label @ (if \<not> dyn then paint_cross corner ra else []) @ vector)))))))"

definition paint_marking :: "view \<Rightarrow> nat \<Rightarrow> py_error + draw_call list" where
  "paint_marking s a =
     (if light_green_markings s then
        (case atoms_to_rotate_0 s of
           None \<Rightarrow> Inl AttributeError
         | Some atr \<Rightarrow> then_do (lookup atr a) (\<lambda>marked. if marked then Inl NameError else Inr []))
      else Inr [])"

definition paint_atom :: "view \<Rightarrow> vec3 list option \<Rightarrow> nat \<Rightarrow> py_error + draw_call list" where
  "paint_atom s V a =
     then_do (lookup (draw_d s) a) (\<lambda>ra.
     then_do (lookup (visible (images s)) a) (\<lambda>vis.
     then_do (if vis then paint_visible s V a ra else Inr []) (\<lambda>calls.
     then_do (paint_marking s a) (\<lambda>marking. Inr (calls @ marking)))))"

text \<open>A cell tick is a thin line, a bond a line of width \<open>bw = self.scale * 0.15\<close>.\<close>

definition paint_line :: "view \<Rightarrow> nat \<Rightarrow> py_error + draw_call list" where
  "paint_line s a =
     then_do (lookup (draw_X1 s) a) (\<lambda>p1.
     then_do (lookup (draw_X2 s) a) (\<lambda>p2.
       Inr [Line (fst p1 + fst (draw_disp s)) (snd p1 + snd (draw_disp s))
                 (fst p2 + fst (draw_disp s)) (snd p2 + snd (draw_disp s))
                 (if a < length (B1 s) then None else Some (scale s * 0.15))]))"

fun paint :: "view \<Rightarrow> vec3 list option \<Rightarrow> nat list \<Rightarrow> py_error + draw_call list" where
  "paint s V [] = Inr []"
| "paint s V (a # as) =
     then_do (if a < natoms (images s) then paint_atom s V a
              else paint_line s (a - natoms (images s))) (\<lambda>calls.
     then_do (paint s V as) (\<lambda>rest. Inr (calls @ rest)))"

text \<open>
  \<open>draw_axes\<close>: the three rows of the axis matrix as short lines from the lower left corner,
  in the order \<open>self.axes[:, 2].argsort()\<close>, each with its letter.
\<close>

definition draw_axis :: "view \<Rightarrow> nat \<Rightarrow> py_error + draw_call list" where
  "draw_axis s i =
     (if i < 3 then
        (let axes_length = 15;
             a = 20;
             b = snd (window_size (window s)) - 20;
             c = trunc (comp (row (axes s) i) 0 * axes_length + real_of_int a);
             d = trunc (- comp (row (axes s) i) 1 * axes_length + real_of_int b)
         in Inr [Line a b c d None,
                 Text c d [''XYZ'' ! i] (Some ([''red'', ''green'', ''blue''] ! i)) None])
      else Inl IndexError)"

fun draw_axes_loop :: "view \<Rightarrow> nat list \<Rightarrow> py_error + draw_call list" where
  "draw_axes_loop s [] = Inr []"
| "draw_axes_loop s (i # is) =
     then_do (draw_axis s i) (\<lambda>calls.
     then_do (draw_axes_loop s is) (\<lambda>rest. Inr (calls @ rest)))"

definition draw_axes :: "(real list \<Rightarrow> nat list) \<Rightarrow> view \<Rightarrow> py_error + draw_call list" where
  "draw_axes argsort s =
     (case col (axes s) 2 of (c0, c1, c2) \<Rightarrow> draw_axes_loop s (argsort [c0, c1, c2]))"

text \<open>\<open>'{0}/{1}'.format(self.frame, self.images.nimages)\<close> needs the decimal numerals.\<close>

fun str_nat :: "nat \<Rightarrow> string" where
  "str_nat n =
     (if n < 10 then [char_of (48 + n)] else str_nat (n div 10) @ [char_of (48 + n mod 10)])"

definition draw_frame_number :: "view \<Rightarrow> draw_call list" where
  "draw_frame_number s =
     [Text (fst (window_size (window s))) (snd (window_size (window s)))
           (str_nat (frame s) @ ''/'' @ str_nat (nimages (images s))) None (Some ''SE'')]"

text \<open>
  \<open>draw\<close>. numpy's \<open>argsort\<close> is a parameter. The window is cleared, the draw order
  \<open>self.indices\<close> and the screen positions \<open>self.P\<close> of the atoms are stored on the view,
  and the window receives the atoms, ticks and bonds in draw order, then the axes and the
  frame number. \<open>P - r[:, None]\<close> needs as many radii as projected atoms (the model does not
  follow numpy's broadcasting of a single row). The status line, \<open>self.status()\<close>, belongs
  to another class and is not part of the view's state.
\<close>

definition draw :: "(real list \<Rightarrow> nat list) \<Rightarrow> view \<Rightarrow> py_error + view" where
  "draw argsort s =
     (if length (draw_P s) \<noteq> length (r (images s)) then Inl ShapeError
      else
        then_do (draw_V s) (\<lambda>V.
        then_do (paint s V (argsort (depths s))) (\<lambda>painted.
        then_do (if show_axes (window s) then draw_axes argsort s else Inr []) (\<lambda>axes_calls.
          Inr (s\<lparr> indices := argsort (depths s),
                  P := draw_P s,
                  window := (window s)\<lparr> canvas :=
                     painted @ axes_calls
                     @ (if 1 < nimages (images s) then draw_frame_number s else []) \<rparr> \<rparr>)))))"

subsection \<open>Ellipsoids\<close>

text \<open>
  \<open>my_arc(gc, fill, j, X, r, n, A, d)\<close> draws atom \<open>j\<close>. The semi-axes are rounded to
  integers first; when the three rounded values agree, or when there are no shapes at all,
  the atom is the arc of a full circle (\<open>23040 = 360 * 64\<close>) in the box with corner \<open>A[j]\<close>
  and side \<open>d[j]\<close>. Otherwise it is a polygon of 16 points around the projected ellipse.
  \<open>Quaternion.rotation_matrix\<close> and \<open>np.linalg.eig\<close> (eigenvalues, and eigenvectors as the
  columns of a matrix) are parameters. A division by zero leaves \<open>inf\<close> or \<open>nan\<close> in the
  polygon, except under \<open>atan\<close>, where an infinite quotient gives a right angle;
  \<open>math.sqrt\<close> raises \<open>ValueError\<close> on a negative number.
\<close>

type_synonym mat2 = "(real \<times> real) \<times> (real \<times> real)"

definition diagonal3 :: "real \<Rightarrow> real \<Rightarrow> real \<Rightarrow> mat3" where
  "diagonal3 a b c = ((a, 0, 0), (0, b, 0), (0, 0, c))"

definition ellipse_projection :: "mat3 \<Rightarrow> py_error + mat2" where
  "ellipse_projection El_v =
     (case El_v of
        ((v00, v01, v02), (v10, v11, v12), (v20, v21, v22)) \<Rightarrow>
          if v22 = 0 then Inl FloatingPointError
          else Inr ((v00 - v02 * v02 / v22, v01 - v02 * v12 / v22),
                    (v01 - v02 * v12 / v22, v11 - v12 * v12 / v22)))"

definition ellipse_angle :: "mat2 \<Rightarrow> py_error + real" where
  "ellipse_angle E =
     (case E of
        ((e00, e01), (e10, e11)) \<Rightarrow>
          if e00 = 0 then
            (if 0 < e01 then Inr (pi / 2) else if e01 < 0 then Inr (- (pi / 2))
             else Inl FloatingPointError)
          else Inr (arctan (e01 / e00)))"

definition semi_axis :: "real \<Rightarrow> py_error + real" where
  "semi_axis l =
     (if l = 0 then Inl FloatingPointError else if l < 0 then Inl ValueError
      else Inr (sqrt (1 / l)))"

definition ellipse_point :: "real \<Rightarrow> real \<Rightarrow> real \<Rightarrow> real \<Rightarrow> vec3 \<Rightarrow> nat \<Rightarrow> int \<times> int" where
  "ellipse_point k a b phi p i =
     (let alpha = real i * 2 * pi / 16
      in (rint ((a * cos alpha * cos phi - b * sin alpha * sin phi) * k + comp p 0),
          rint ((a * cos alpha * sin phi + b * sin alpha * cos phi) * k + comp p 1)))"

definition my_arc ::
  "(quaternion \<Rightarrow> mat3) \<Rightarrow> (mat2 \<Rightarrow> (real \<times> real) \<times> mat2) \<Rightarrow> view \<Rightarrow> bool \<Rightarrow> nat \<Rightarrow>
   vec3 list \<Rightarrow> (int \<times> int) list \<Rightarrow> int list \<Rightarrow> py_error + draw_call" where
  "my_arc rotation_matrix eig s fill j Xp Ap dp =
     (let draw_arc =
            then_do (lookup Ap j) (\<lambda>corner.
            then_do (lookup dp j) (\<lambda>side.
              Inr (Arc fill (fst corner) (snd corner) side side 0 23040)))
      in case shapes (images s) of
           None \<Rightarrow> draw_arc
         | Some sh \<Rightarrow>
             then_do (lookup sh j) (\<lambda>(sx, sy, sz).
               let rx = rint sx; ry = rint sy; rz = rint sz;
                   circle = (rx = ry \<and> ry = rz)
               in if \<not> circle then
                    then_do (lookup (Q (images s)) j) (\<lambda>q.
                      if rx = 0 \<or> ry = 0 \<or> rz = 0 then Inl FloatingPointError
                      else
                        let Ellipsoid = diagonal3 (1 / real_of_int (rx * rx))
                                          (1 / real_of_int (ry * ry)) (1 / real_of_int (rz * rz));
                            El_r = matmul (rotation_matrix q)
                                     (matmul Ellipsoid (transpose3 (rotation_matrix q)));
                            El_v = matmul (transpose3 (axes s)) (matmul El_r (axes s))
                        in then_do (ellipse_projection El_v) (\<lambda>El_p.
                           case eig El_p of
                             ((l0, l1), E) \<Rightarrow>
                               then_do (ellipse_angle E) (\<lambda>phi.
                               then_do (semi_axis l0) (\<lambda>a.
                               then_do (semi_axis l1) (\<lambda>b.
                               then_do (lookup Xp j) (\<lambda>p.
                                 Inr (Polygon fill
                                        (map (ellipse_point (scale s) a b phi p) [0..<16]))))))))
                  else draw_arc))"

subsection \<open>Orientation from selected atoms\<close>

fun cross :: "vec3 \<Rightarrow> vec3 \<Rightarrow> vec3" where
  "cross (a, b, c) (x, y, z) = (b * z - c * y, c * x - a * z, a * y - b * x)"

text \<open>\<open>sel_pos\<close>: the positions \<open>self.R[i]\<close> of the atoms \<open>i\<close> that \<open>atoms_to_rotate_0\<close> marks.\<close>

fun sel_pos :: "vec3 list \<Rightarrow> nat \<Rightarrow> bool list \<Rightarrow> py_error + vec3 list" where
  "sel_pos R i [] = Inr []"
| "sel_pos R i (j # js) =
     (if j then then_do (lookup R i) (\<lambda>p. then_do (sel_pos R (Suc i) js) (\<lambda>ps. Inr (p # ps)))
      else sel_pos R (Suc i) js)"

text \<open>
  \<open>self.orient_normal /= sum(self.orient_normal ** 2) ** 0.5\<close>: every component is divided
  by the length. Nothing in the source looks at the length first; for the zero vector numpy
  computes \<open>0 / 0\<close>, warns, and stores \<open>nan\<close> three times.
\<close>

definition normalise :: "vec3 \<Rightarrow> py_error + vec3" where
  "normalise v =
     (if sqrt (vdot v v) = 0 then Inl FloatingPointError
      else Inr (vscale (1 / sqrt (vdot v v)) v))"

text \<open>
  \<open>toggle_orient_mode\<close>. \<open>toggle_mode\<close> talks to the menu widgets and is a parameter.
  \<open>self.R\<close> is \<open>self.X[:natoms]\<close>. With two atoms marked the normal is their difference, with
  three the cross product of two differences, otherwise the x direction.
\<close>

definition toggle_orient_mode :: "(string \<Rightarrow> view \<Rightarrow> py_error + view) \<Rightarrow> view \<Rightarrow> py_error + view" where
  "toggle_orient_mode toggle_mode s =
     then_do (if \<not> menu_change s then toggle_mode ''Orient'' s else Inr s) (\<lambda>s1.
       case atoms_to_rotate_0 s1 of
         None \<Rightarrow> Inl AttributeError
       | Some atr \<Rightarrow>
           then_do (sel_pos (take (natoms (images s1)) (X s1)) 0 atr) (\<lambda>ps.
             let n1 = (if length ps = 2 then vsub (ps ! 0) (ps ! 1) else (1, 0, 0));
                 n2 = (if length ps = 3
                       then cross (vsub (ps ! 1) (ps ! 0)) (vsub (ps ! 1) (ps ! 2)) else n1)
             in then_do (normalise n2) (\<lambda>v. Inr (s1\<lparr> orient_normal := v \<rparr>))))"

subsection \<open>Interaction controller\<close>

text \<open>\<open>press\<close> records the button, the pointer, the time, and the camera as it is.\<close>

definition press :: "view \<Rightarrow> event \<Rightarrow> view" where
  "press s ev =
     s\<lparr> press_state := Some \<lparr> button = ev_button ev, xy = (ev_x ev, ev_y ev), t0 = ev_time ev,
                              axes0 = axes s, center0 = center s \<rparr> \<rparr>"

text \<open>
  The hit test of a tap: \<open>d = self.P - self.xy\<close> and
  \<open>hit = np.less((d**2).sum(1), (self.scale * self.images.r)**2)\<close>. The pointer is where the
  button went down; the circle of an atom has its full radius \<open>scale * r\<close>, whether or not
  the bonds are on display.
\<close>

definition tap_hit :: "view \<Rightarrow> vec2 \<Rightarrow> bool list" where
  "tap_hit s p =
     map (\<lambda>((px, py), q). (px - fst p)\<^sup>2 + (py - snd p)\<^sup>2 < (scale s * q)\<^sup>2)
         (zip (P s) (r (images s)))"

text \<open>
  \<open>for a in self.indices[::-1]: if a < self.images.natoms and hit[a]: ... break\<close>, with
  \<open>else\<close>: the first atom in the order walked that is hit, if any.
\<close>

fun first_hit :: "nat \<Rightarrow> bool list \<Rightarrow> nat list \<Rightarrow> py_error + nat option" where
  "first_hit n hit [] = Inr None"
| "first_hit n hit (a # as) =
     (if a < n then
        then_do (lookup hit a) (\<lambda>h. if h then Inr (Some a) else first_hit n hit as)
      else first_hit n hit as)"

text \<open>
  The body of the loop for the atom hit, and the \<open>else\<close> of the loop. The result is the pair
  of \<open>selected\<close> (the array is changed in place) and the local \<open>selected_ordered\<close>.
\<close>

definition tap_select ::
  "modifier \<Rightarrow> bool list \<Rightarrow> nat list \<Rightarrow> nat option \<Rightarrow> py_error + bool list \<times> nat list" where
  "tap_select m sel ordered found =
     (case found of
        None \<Rightarrow> Inr (map (\<lambda>_. False) sel, [])
      | Some a \<Rightarrow>
          then_do (lookup sel a) (\<lambda>was.
            if m = Ctrl then
              Inr (sel[a := \<not> was],
                   if \<not> was then ordered @ [a]
                   else if 0 < length ordered then
                     (if last ordered = a then butlast ordered else [])
                   else ordered)
            else Inr ((map (\<lambda>_. False) sel)[a := True], [a])))"

text \<open>
  Box selection: the atoms whose screen position lies strictly between the corners
  \<open>C1 = np.minimum(A, self.xy)\<close> and \<open>C2 = np.maximum(A, self.xy)\<close> in both coordinates.
\<close>

definition box_indices :: "view \<Rightarrow> vec2 \<Rightarrow> vec2 \<Rightarrow> nat list" where
  "box_indices s p q =
     (let C1 = (min (fst p) (fst q), min (snd p) (snd q));
          C2 = (max (fst p) (fst q), max (snd p) (snd q))
      in filter (\<lambda>a. fst C1 < fst (P s ! a) \<and> snd C1 < snd (P s ! a) \<and>
                      fst (P s ! a) < fst C2 \<and> snd (P s ! a) < snd C2)
                [0..<length (P s)])"

text \<open>\<open>selected[indices] = True\<close> raises when an index is out of range.\<close>

fun set_true :: "bool list \<Rightarrow> nat list \<Rightarrow> py_error + bool list" where
  "set_true sel [] = Inr sel"
| "set_true sel (a # as) = (if a < length sel then set_true (sel[a := True]) as else Inl IndexError)"

definition box_select ::
  "modifier \<Rightarrow> bool list \<Rightarrow> nat list \<Rightarrow> nat list \<Rightarrow> py_error + bool list \<times> nat list" where
  "box_select m sel ordered found =
     then_do (set_true (if m \<noteq> Ctrl then map (\<lambda>_. False) sel else sel) found) (\<lambda>sel'.
       Inr (sel',
            if length found = 1 \<and> found ! 0 \<notin> set ordered then ordered @ [found ! 0]
            else if 1 < length found then []
            else ordered))"

text \<open>
  The end of \<open>release\<close>: \<open>np.arange(natoms)[selected]\<close> lists the selected atoms (the mask
  must have \<open>natoms\<close> entries); when their number differs from the length of the ordered
  list, the ordered list is emptied. Then the ordered list is stored on \<open>images\<close>.
\<close>

definition reconcile :: "view \<Rightarrow> nat list \<Rightarrow> py_error + view" where
  "reconcile s ordered =
     (if length (selected (images s)) \<noteq> natoms (images s) then Inl IndexError
      else Inr (s\<lparr> images := (images s)\<lparr> selected_ordered :=
                  (if length (filter (\<lambda>a. selected (images s) ! a) [0..<natoms (images s)])
                        \<noteq> length ordered
                   then [] else ordered) \<rparr> \<rparr>))"

text \<open>
  \<open>release\<close>. \<open>scroll_event\<close> is a method of another class and a parameter here. A release
  of another button than the first returns at once. For the first button, a release less
  than 200 ms after the press is a tap, a later one closes a box; either way the selection
  is changed, the view drawn, and the ordered list reconciled. In the source the ordered
  list is the list object of \<open>images\<close> itself, extended in place by \<open>+=\<close> before it is stored
  back; nothing in between reads it from \<open>images\<close> after a change, so the model keeps the local
  name only.
\<close>

definition release ::
  "(real list \<Rightarrow> nat list) \<Rightarrow> (event \<Rightarrow> view \<Rightarrow> py_error + view) \<Rightarrow> view \<Rightarrow> event \<Rightarrow> py_error + view" where
  "release argsort scroll_event s ev =
     (if ev_button ev \<in> {4, 5} then scroll_event ev s
      else if ev_button ev \<noteq> 1 then Inr s
      else
        (case press_state s of
           None \<Rightarrow> Inl AttributeError
         | Some p \<Rightarrow>
             then_do
               (if ev_time ev < t0 p + 200 then
                  (if length (P s) \<noteq> length (r (images s)) then Inl ShapeError
                   else
                     then_do (first_hit (natoms (images s)) (tap_hit s (xy p)) (rev (indices s)))
                       (tap_select (ev_modifier ev) (selected (images s))
                          (selected_ordered (images s))))
                else
                  box_select (ev_modifier ev) (selected (images s)) (selected_ordered (images s))
                    (box_indices s (ev_x ev, ev_y ev) (xy p)))
               (\<lambda>(sel', ordered').
                  then_do (draw argsort (s\<lparr> images := (images s)\<lparr> selected := sel' \<rparr> \<rparr>))
                    (\<lambda>s'. reconcile s' ordered'))))"

text \<open>
  The rotation of a drag by \<open>(a, b) = (x - x0, y0 - y)\<close>: the direction is normalised, a drag
  of length zero counts as a drag to the right, and the angle is 0.01 times the length.
\<close>

definition drag_rotation :: "real \<Rightarrow> real \<Rightarrow> mat3" where
  "drag_rotation a0 b0 =
     (let t = sqrt (a0 * a0 + b0 * b0);
          a = (if 0 < t then a0 / t else 1);
          b = (if 0 < t then b0 / t else 0);
          c = cos (0.01 * t);
          s = - sin (0.01 * t)
      in ((c * a * a + b * b, (c - 1) * b * a, s * a),
          ((c - 1) * a * b, c * b * b + a * a, s * b),
          (- s * a, - s * b, c)))"

text \<open>
  The pivot of a rotation: \<open>self.X[:natoms].mean(0)\<close>, or \<open>self.images.A[self.frame].mean(0)\<close>
  when there are no atoms. The mean of no rows at all is \<open>nan\<close>.

  \<open>move\<close>. With the first button down the rubber band is drawn and nothing else happens,
  with the second nothing at all. Otherwise shift pans (a division by \<open>self.scale\<close>), and
  any other modifier rotates: the axes become the axes of the press times the rotation of the
  drag, and the centre is moved so that the centre of the atoms (of the cell, without atoms)
  stays where it is on the screen. Then the view is drawn.
\<close>

definition rotation_pivot :: "view \<Rightarrow> py_error + vec3" where
  "rotation_pivot s =
     (if 0 < natoms (images s) then
        (if X s = [] then Inl FloatingPointError else Inr (mean0 (take (natoms (images s)) (X s))))
      else Inr (mean0 [row (A (images s)) 0, row (A (images s)) 1, row (A (images s)) 2]))"

definition move :: "(real list \<Rightarrow> nat list) \<Rightarrow> view \<Rightarrow> event \<Rightarrow> py_error + view" where
  "move argsort s ev =
     (case press_state s of
        None \<Rightarrow> Inl AttributeError
      | Some p \<Rightarrow>
          (let x0 = fst (xy p); y0 = snd (xy p) in
           if button p = 1 then
             Inr (s\<lparr> window := (window s)\<lparr> canvas :=
                    canvas (window s) @ [Rectangle (ev_x ev) (ev_y ev) (rint x0) (rint y0)] \<rparr> \<rparr>)
           else if button p = 2 then Inr s
           else if ev_modifier ev = Shift then
             (if scale s = 0 then Inl FloatingPointError
              else draw argsort
                     (s\<lparr> center := vsub (center0 p)
                           (vscale (1 / scale s) (matvec (axes s) (ev_x ev - x0, y0 - ev_y ev, 0))) \<rparr>))
           else
             (let axes' = matmul (axes0 p) (drag_rotation (ev_x ev - x0) (y0 - ev_y ev)) in
              then_do (rotation_pivot s) (\<lambda>com.
                draw argsort
                  (s\<lparr> axes := axes',
                      center := vsub com (vecmat (vsub com (center0 p))
                                            (matmul (axes0 p) (transpose3 axes'))) \<rparr>)))))"

subsection \<open>Examples\<close>

text \<open>
  A function that does what numpy's \<open>argsort\<close> promises, to return the indices in an order
  that sorts the keys: the indices are sorted by insertion, which leaves equal keys in index
  order.
\<close>

definition argsort_stable :: "real list \<Rightarrow> nat list" where
  "argsort_stable ks = sort_key (\<lambda>i. ks ! i) [0..<length ks]"

text \<open>
  A view of two atoms of radius 1 in a window of 100 by 100 pixels, seen along the z axis
  at 10 pixels per unit: atom 0 at the origin, atom 1 three units to the right and one unit
  nearer to the viewer. Nothing else is on display.
\<close>

definition images_example :: images where
  "images_example =
     \<lparr> natoms = 2, nimages = 1, r = [1, 1], selected = [False, False], selected_ordered = [],
       visible = [True, True], dynamic = [True, True], D = (0, 0, 0),
       A = ((1, 0, 0), (0, 1, 0), (0, 0, 1)), shapes = None, Q = [] \<rparr>"

definition window_example :: window where
  "window_example =
     \<lparr> window_size = (100, 100), show_unit_cell = False, show_bonds = False, show_axes = False,
       show_velocities = False, show_forces = False, canvas = [] \<rparr>"

definition view_example :: view where
  "view_example =
     \<lparr> images = images_example, window = window_example, frame = 0,
       X = [(0, 0, 0), (3, 0, 1)], B = [], B1 = [],
       axes = ((1, 0, 0), (0, 1, 0), (0, 0, 1)), scale = 10, center = (0, 0, 0),
       P = [], indices = [], press_state = None, labels = None,
       colors = [''#FFFFFF'', ''#FF0D0D''], vectors = None, light_green_markings = False,
       atoms_to_rotate_0 = None, orient_normal = (1, 0, 0), menu_change = False \<rparr>"

text \<open>What \<open>draw\<close> makes of it: atom 0 in the middle of the window, atom 1 thirty pixels to
  the right, painted after atom 0.\<close>

definition view_drawn :: view where
  "view_drawn =
     view_example\<lparr> indices := [0, 1], P := [(50, 50), (80, 50)],
       window := window_example\<lparr> canvas :=
         [Circle ''#FFFFFF'' False 40 40 60 60, Circle ''#FF0D0D'' False 70 40 90 60] \<rparr> \<rparr>"

text \<open>A pointer event at pixel (52, 50), inside the circle of atom 0 only.\<close>

definition event_example :: "nat \<Rightarrow> int \<Rightarrow> modifier \<Rightarrow> event" where
  "event_example b t m = \<lparr> ev_button = b, ev_x = 52, ev_y = 50, ev_time = t, ev_modifier = m \<rparr>"

text \<open>A scroll handler that leaves the view as it is.\<close>

definition scroll_example :: "event \<Rightarrow> view \<Rightarrow> py_error + view" where
  "scroll_example ev s = Inr s"

text \<open>The first button goes down on atom 0 at time 0 and up again 100 ms later: atom 0 is
  selected.\<close>

definition view_pressed :: view where
  "view_pressed = press view_drawn (event_example 1 0 NoModifier)"

definition view_tapped :: view where
  "view_tapped =
     view_pressed\<lparr> images := images_example\<lparr> selected := [True, False], selected_ordered := [0] \<rparr>,
       window := window_example\<lparr> canvas :=
         [Circle ''#FFFFFF'' True 40 40 60 60, Circle ''#FF0D0D'' False 70 40 90 60] \<rparr> \<rparr>"

text \<open>The same again at times 300 and 400 with the control key held: atom 0 is deselected.\<close>

definition view_cleared :: view where
  "view_cleared =
     (press view_tapped (event_example 1 300 Ctrl))\<lparr> images := images_example,
       window := window_example\<lparr> canvas :=
         [Circle ''#FFFFFF'' False 40 40 60 60, Circle ''#FF0D0D'' False 70 40 90 60] \<rparr> \<rparr>"

text \<open>A view of a single atom at the origin, and a drag with the third button from pixel
  (52, 50) three pixels to the right and four up.\<close>

definition view_single :: view where
  "view_single =
     view_example\<lparr> images := images_example\<lparr> natoms := 1, r := [1], selected := [False],
                      visible := [True], dynamic := [True] \<rparr>,
                   X := [(0, 0, 0)], colors := [''#FFFFFF''] \<rparr>"

definition event_drag :: event where
  "event_drag = \<lparr> ev_button = 3, ev_x = 55, ev_y = 46, ev_time = 500, ev_modifier = NoModifier \<rparr>"

text \<open>The example view with atom 1 moved onto atom 0 and both atoms marked for rotation,
  and a \<open>toggle_mode\<close> that has nothing to change.\<close>

definition view_coincident :: view where
  "view_coincident =
     view_example\<lparr> X := [(0, 0, 0), (0, 0, 0)], atoms_to_rotate_0 := Some [True, True] \<rparr>"

definition toggle_mode_example :: "string \<Rightarrow> view \<Rightarrow> py_error + view" where
  "toggle_mode_example mode s = Inr s"

text \<open>The example view with the bonds on display, and with shapes: atom 0 a sphere, atom 1 an
  ellipsoid.\<close>

definition view_bonds :: view where
  "view_bonds = view_example\<lparr> window := window_example\<lparr> show_bonds := True \<rparr> \<rparr>"

definition view_shapes :: view where
  "view_shapes =
     view_example\<lparr> images := images_example\<lparr> shapes := Some [(1, 1, 1), (1, 2, 3)],
                                               Q := [(1, 0, 0, 0), (1, 0, 0, 0)] \<rparr> \<rparr>"

text \<open>The view with the bonds on display, as \<open>draw\<close> leaves it: the circles have radius 6.5.
  A tap at pixel (58, 50), eight pixels to the right of atom 0, and the view after it.\<close>

definition view_bonds_drawn :: view where
  "view_bonds_drawn =
     view_bonds\<lparr> indices := [0, 1], P := [(50, 50), (80, 50)],
       window := window_example\<lparr> show_bonds := True, canvas :=
         [Circle ''#FFFFFF'' False 44 44 57 57, Circle ''#FF0D0D'' False 74 44 87 57] \<rparr> \<rparr>"

definition event_edge :: "nat \<Rightarrow> int \<Rightarrow> modifier \<Rightarrow> event" where
  "event_edge b t m = \<lparr> ev_button = b, ev_x = 58, ev_y = 50, ev_time = t, ev_modifier = m \<rparr>"

definition view_bonds_tapped :: view where
  "view_bonds_tapped =
     (press view_bonds_drawn (event_edge 1 0 NoModifier))
       \<lparr> images := images_example\<lparr> selected := [True, False], selected_ordered := [0] \<rparr>,
         window := window_example\<lparr> show_bonds := True, canvas :=
           [Circle ''#FFFFFF'' True 44 44 57 57, Circle ''#FF0D0D'' False 74 44 87 57] \<rparr> \<rparr>"

section \<open>Properties\<close>

subsection \<open>Raising\<close>

lemma then_do_Inr:
  "then_do m f = Inr v \<longleftrightarrow> (\<exists>u. m = Inr u \<and> f u = Inr v)"
  by (cases m) auto

lemma lookup_Inr: "lookup xs i = Inr v \<longleftrightarrow> i < length xs \<and> v = xs ! i"
  by (auto simp: lookup_def)

subsection \<open>Cell grid\<close>

lemma ticks_unit: "ticks (1, 0, 0) = 3" "ticks (0, 1, 0) = 3" "ticks (0, 0, 1) = 3"
  by (simp_all add: ticks_def)

lemma length_box_rows:
  "length (box_rows ends nn) = 4 * (nn ! 0 + nn ! 1 + nn ! 2)"
  by (simp add: box_rows_def box_block_def Let_def)

lemma length_plot_cell_piece: "length (plot_cell_piece V c ij) = ticks (row V c)"
  by (simp add: plot_cell_piece_def Let_def)

text \<open>
  Claim C6, as the code has it. For the cubic cell of side 1.0 each lattice vector gets
  \<open>max(2, int(1.0 / 0.3)) = 3\<close> ticks: the division is truncated, not rounded up. Both cell-grid
  builders, \<open>make_box\<close> and \<open>plot_cell\<close>, therefore emit \<open>4 * 3 * max(2, floor(1/0.3)) = 36\<close>
  segments (36 start points and 36 end points).
\<close>

theorem cell_grid_cubic_count:
  "length (fst (make_box True cubic_cell)) = 4 * 3 * max 2 (nat \<lfloor>1 / 0.3 :: real\<rfloor>)
   \<and> length (snd (make_box True cubic_cell)) = 4 * 3 * max 2 (nat \<lfloor>1 / 0.3 :: real\<rfloor>)
   \<and> length (fst (plot_cell cubic_cell)) = 4 * 3 * max 2 (nat \<lfloor>1 / 0.3 :: real\<rfloor>)
   \<and> length (snd (plot_cell cubic_cell)) = 4 * 3 * max 2 (nat \<lfloor>1 / 0.3 :: real\<rfloor>)
   \<and> 4 * 3 * max 2 (nat \<lfloor>1 / 0.3 :: real\<rfloor>) = (36 :: nat)"
  by (simp add: make_box_def plot_cell_def cubic_cell_def length_box_rows
      length_plot_cell_piece ticks_unit Let_def)

text \<open>
  Claim C6 as stated asks for \<open>4 * 3 * max(2, ceil(1/0.3)) = 48\<close> segments; \<open>make_box\<close> emits 36.
\<close>

theorem cell_grid_cubic_count_counterexample:
  "length (fst (make_box True cubic_cell)) \<noteq> 4 * 3 * max 2 (nat \<lceil>1 / 0.3 :: real\<rceil>)"
  by (simp add: make_box_def cubic_cell_def length_box_rows ticks_unit Let_def)

subsection \<open>Bond graph\<close>

text \<open>
  Claim C1. The claim asks that a bond with a non-zero offset is stored together with its
  mirror image. \<open>bind\<close> sets out to store it, in the rows after the forward rows, but reads
  the rows to mirror through a mask that is shorter than the array whenever there is a row
  left to write. For the two atoms with one bond across the cell boundary the call raises
  \<open>IndexError\<close> and no bond array is built.
\<close>

theorem bind_periodic_example_raises: "bind True 2 nl_example None = Inl IndexError"
  by (simp add: bind_def nl_example_def assign_def Let_def upt_rec)

text \<open>Without a periodic bond the array is built.\<close>

lemma bind_inside_returns:
  "bind True 2 nl_inside None = Inr ([(0, 1, (0, 0, 0))], Some [1, 1])"
  by (simp add: bind_def nl_inside_def assign_def Let_def upt_rec eval_nat_numeral)

lemma assign_Inr_set: "assign t vs = Inr new \<Longrightarrow> set new \<subseteq> set vs"
  by (cases vs) (auto simp: assign_def split: if_splits)

lemma assign_Inr_length: "assign t vs = Inr new \<Longrightarrow> length new = t"
  by (auto simp: assign_def split: if_splits)

lemma forward_Inr:
  "forward nb g as (n1, rows, c) = Inr (n2, rows', c') \<Longrightarrow> length rows = min n1 nb \<Longrightarrow>
   length rows' = min n2 nb \<and>
   set rows' \<subseteq> set rows \<union> {(a, b, off). a \<in> set as \<and> (b, off) \<in> set (g a)}"
proof (induction as arbitrary: n1 rows c)
  case Nil
  then show ?case by simp
next
  case (Cons a as)
  from Cons.prems(1) obtain c1 new where
    new: "assign (min (n1 + length (g a)) nb - min n1 nb) (map (\<lambda>(a2, off). (a, a2, off)) (g a))
            = Inr new"
    and rest: "forward nb g as (n1 + length (g a), rows @ new, c1) = Inr (n2, rows', c')"
    by (auto simp: then_do_Inr)
  from assign_Inr_length [OF new] Cons.prems(2)
  have len: "length (rows @ new) = min (n1 + length (g a)) nb" by auto
  from Cons.IH [OF rest len] assign_Inr_set [OF new] show ?case by auto
qed

text \<open>Whatever the neighbour list, a call that returns has stored forward rows only: no mirror
  image is ever appended.\<close>

lemma bind_stores_forward_rows_only:
  assumes "bind shown n nl c0 = Inr (bonds, c)" and "(a, b, off) \<in> set bonds"
  shows "a < n \<and> (b, off) \<in> set (get_neighbors nl a)"
proof -
  let ?nb = "nneighbors nl + npbcneighbors nl"
  from assms obtain n2 rows c' mirrored where
    f: "forward ?nb (get_neighbors nl) [0..<n] (0, [], replicate n 0) = Inr (n2, rows, c')"
    and l: "length rows = ?nb"
    and m: "assign (?nb - min n2 ?nb)
              (map mirror (filter (\<lambda>b. periodic (bond_offset b)) rows)) = Inr mirrored"
    and b: "bonds = rows @ mirrored"
    by (auto simp: bind_def Let_def then_do_Inr split: if_splits)
  from forward_Inr [OF f] have r: "length rows = min n2 ?nb"
    and s: "set rows \<subseteq> {(a, b, off). a \<in> set [0..<n] \<and> (b, off) \<in> set (get_neighbors nl a)}"
    by auto
  from assign_Inr_length [OF m] r l have "mirrored = []" by simp
  with b s assms(2) show ?thesis by auto
qed


text \<open>With counters that do not count the periodic bond, it is stored without its mirror
  image.\<close>

lemma bind_unmirrored:
  "bind True 2 \<lparr> nneighbors = 1, npbcneighbors = 0,
       get_neighbors = (\<lambda>a. if a = 0 then [(1, (1, 0, 0))] else []) \<rparr> None
     = Inr ([(0, 1, (1, 0, 0))], Some [1, 1])"
  by (simp add: bind_def assign_def Let_def upt_rec eval_nat_numeral)

lemma forward_fits:
  assumes "n1 + length (concat (map g as)) \<le> nb"
    and "\<forall>a \<in> set as. a < length c \<and> (\<forall>(b, off) \<in> set (g a). b < length c)"
  shows "\<exists>c'. forward nb g as (n1, rows, c)
             = Inr (n1 + length (concat (map g as)),
                    rows @ concat (map (\<lambda>a. map (\<lambda>(a2, off). (a, a2, off)) (g a)) as), c')
           \<and> length c' = length c"
  using assms
proof (induction as arbitrary: n1 rows c)
  case Nil
  then show ?case by simp
next
  case (Cons a as)
  have bump_ok: "\<exists>c'. bump c0 bs = Inr c' \<and> length c' = length c0"
    if "\<forall>b \<in> set bs. b < length c0" for c0 bs
    using that
  proof (induction bs arbitrary: c0)
    case Nil
    then show ?case by simp
  next
    case (Cons b bs)
    then have "\<forall>b' \<in> set bs. b' < length (c0[b := c0 ! b + 1])" by simp
    from Cons.IH [OF this] Cons.prems show ?case by simp
  qed
  from Cons.prems(2) have "\<forall>b \<in> set (map fst (g a)). b < length (c[a := c ! a + length (g a)])"
    by auto
  from bump_ok [OF this] obtain c1 where
    c1: "bump (c[a := c ! a + length (g a)]) (map fst (g a)) = Inr c1" "length c1 = length c"
    by auto
  from Cons.prems(1) have fit: "min (n1 + length (g a)) nb - min n1 nb = length (g a)"
    by auto
  have new: "assign (min (n1 + length (g a)) nb - min n1 nb)
      (map (\<lambda>(a2, off). (a, a2, off)) (g a)) = Inr (map (\<lambda>(a2, off). (a, a2, off)) (g a))"
    by (simp add: fit assign_def)
  from Cons.prems have
    "n1 + length (g a) + length (concat (map g as)) \<le> nb"
    "\<forall>a \<in> set as. a < length c1 \<and> (\<forall>(b, off) \<in> set (g a). b < length c1)"
    using c1(2) by auto
  from Cons.IH [OF this, of "rows @ map (\<lambda>(a2, off). (a, a2, off)) (g a)"] c1 new
  show ?case by (auto simp: add.assoc)
qed

text \<open>With counters that fit the lists (\<open>nneighbors\<close> pairs, some of them periodic) and
  neighbours that are atoms, every call with atoms raises \<open>IndexError\<close>.\<close>

lemma bind_periodic_raises:
  assumes "0 < n"
    and "nneighbors nl = length (concat (map (get_neighbors nl) [0..<n]))"
    and "0 < npbcneighbors nl"
    and "\<forall>a < n. \<forall>(b, off) \<in> set (get_neighbors nl a). b < n"
  shows "bind True n nl c0 = Inl IndexError"
proof -
  let ?nb = "nneighbors nl + npbcneighbors nl" and ?g = "get_neighbors nl"
  have "nneighbors nl \<le> ?nb" by simp
  with assms(2) have "0 + length (concat (map ?g [0..<n])) \<le> ?nb" by simp
  moreover have "\<forall>a \<in> set [0..<n]. a < length (replicate n (0::nat)) \<and>
      (\<forall>(b, off) \<in> set (?g a). b < length (replicate n (0::nat)))"
    using assms(4) by auto
  ultimately obtain c' where
    "forward ?nb ?g [0..<n] (0, [], replicate n 0)
       = Inr (0 + length (concat (map ?g [0..<n])),
              [] @ concat (map (\<lambda>a. map (\<lambda>(a2, off). (a, a2, off)) (?g a)) [0..<n]), c')"
    using forward_fits [of 0 ?g "[0..<n]" ?nb "replicate n 0" "[]"] by blast
  moreover have "length (concat (map (\<lambda>a. map (\<lambda>(a2, off). (a, a2, off)) (?g a)) [0..<n]))
      = length (concat (map ?g [0..<n]))"
    by (simp add: length_concat comp_def)
  ultimately show ?thesis
    using assms(1-3) by (simp add: bind_def Let_def)
qed

subsection \<open>Drawing and reconciling\<close>

lemma draw_Inr:
  assumes "draw argsort s = Inr s'"
  shows "images s' = images s" and "indices s' = argsort (depths s)" and "P s' = draw_P s"
    and "axes s' = axes s" and "scale s' = scale s" and "center s' = center s"
    and "X s' = X s" and "press_state s' = press_state s"
    and "length (draw_P s) = length (r (images s))"
  using assms by (auto simp: draw_def then_do_Inr split: if_splits)

lemma reconcile_Inr:
  assumes "reconcile s ordered = Inr s'"
  shows "selected (images s') = selected (images s)"
    and "natoms (images s') = natoms (images s)"
    and "length (selected (images s)) = natoms (images s)"
    and "r (images s') = r (images s)"
    and "P s' = P s" and "indices s' = indices s" and "scale s' = scale s"
    and "selected_ordered (images s') =
           (if length (filter (\<lambda>a. selected (images s) ! a) [0..<natoms (images s)]) \<noteq> length ordered
            then [] else ordered)"
  using assms by (auto simp: reconcile_def split: if_splits)

lemma count_selected:
  "length (filter (\<lambda>a. sel ! a) [0..<length sel]) = length (filter (\<lambda>b. b) sel)"
proof -
  have "filter (\<lambda>b. b) sel = filter (\<lambda>b. b) (map (\<lambda>a. sel ! a) [0..<length sel])"
    by (simp add: map_nth)
  also have "length \<dots> = length (filter (\<lambda>a. sel ! a) [0..<length sel])"
    by (simp add: filter_map comp_def)
  finally show ?thesis by simp
qed

lemma first_hit_None:
  "first_hit n hit idx = Inr None \<Longrightarrow> a \<in> set idx \<Longrightarrow> a < n \<Longrightarrow> \<not> hit ! a"
  by (induction idx) (auto simp: then_do_Inr lookup_Inr split: if_splits)

lemma first_hit_Some:
  "first_hit n hit idx = Inr (Some k) \<Longrightarrow>
   \<exists>pre post. idx = pre @ k # post \<and> k < n \<and> k < length hit \<and> hit ! k \<and>
              (\<forall>j \<in> set pre. \<not> (j < n \<and> hit ! j))"
proof (induction idx)
  case Nil
  then show ?case by simp
next
  case (Cons a idx)
  show ?case
  proof (cases "a < n \<and> hit ! a")
    case True
    with Cons.prems have "k = a" "a < length hit"
      by (auto simp: then_do_Inr lookup_Inr split: if_splits)
    with True show ?thesis by (intro exI [of _ "[]"] exI [of _ idx]) auto
  next
    case False
    with Cons.prems have "first_hit n hit idx = Inr (Some k)"
      by (auto simp: then_do_Inr lookup_Inr split: if_splits)
    from Cons.IH [OF this] obtain pre post where
      "idx = pre @ k # post" "k < n" "k < length hit" "hit ! k"
      "\<forall>j \<in> set pre. \<not> (j < n \<and> hit ! j)" by blast
    with False show ?thesis by (intro exI [of _ "a # pre"] exI [of _ post]) auto
  qed
qed

lemma filter_one_hot:
  "k < n \<Longrightarrow> filter (\<lambda>b. b) ((replicate n False)[k := True]) = [True]"
  by (simp add: upd_conv_take_nth_drop)

lemma map_False: "map (\<lambda>_. False) sel = replicate (length sel) False"
  by (simp add: map_replicate_const)

lemma tap_hit_nth:
  "a < length (P s) \<Longrightarrow> a < length (r (images s)) \<Longrightarrow>
   tap_hit s p ! a \<longleftrightarrow>
     (fst (P s ! a) - fst p)\<^sup>2 + (snd (P s ! a) - snd p)\<^sup>2 < (scale s * r (images s) ! a)\<^sup>2"
  by (simp add: tap_hit_def split_beta)

lemma tap_hit_cong:
  "P s' = P s \<Longrightarrow> scale s' = scale s \<Longrightarrow> r (images s') = r (images s) \<Longrightarrow>
   tap_hit s' p = tap_hit s p"
  by (simp add: tap_hit_def)

text \<open>A tap without the control key.\<close>

lemma release_tap_plain:
  assumes tap: "ev_button ev = 1" "press_state s = Some p" "ev_time ev < t0 p + 200"
      "ev_modifier ev \<noteq> Ctrl"
    and rel: "release argsort scroll_event s ev = Inr s1"
  shows "\<exists>found. first_hit (natoms (images s)) (tap_hit s (xy p)) (rev (indices s)) = Inr found \<and>
           length (selected (images s)) = natoms (images s) \<and>
           natoms (images s1) = natoms (images s) \<and> r (images s1) = r (images s) \<and>
           selected (images s1) =
             (case found of None \<Rightarrow> replicate (natoms (images s)) False
              | Some k \<Rightarrow> (replicate (natoms (images s)) False)[k := True]) \<and>
           selected_ordered (images s1) = (case found of None \<Rightarrow> [] | Some k \<Rightarrow> [k])"
proof -
  from rel tap obtain found sel' ord' sd where
    fh: "first_hit (natoms (images s)) (tap_hit s (xy p)) (rev (indices s)) = Inr found"
    and ts: "tap_select (ev_modifier ev) (selected (images s)) (selected_ordered (images s)) found
               = Inr (sel', ord')"
    and dr: "draw argsort (s\<lparr> images := (images s)\<lparr> selected := sel' \<rparr> \<rparr>) = Inr sd"
    and rc: "reconcile sd ord' = Inr s1"
    by (auto simp: release_def then_do_Inr split: if_splits)
  note d = draw_Inr [OF dr] and rr = reconcile_Inr [OF rc]
  have len: "length sel' = length (selected (images s))"
    using ts tap(4) by (auto simp: tap_select_def then_do_Inr split: option.splits)
  have n: "length (selected (images s)) = natoms (images s)"
    using rr(3) d(1) len by simp
  show ?thesis
  proof (cases found)
    case None
    with ts have "sel' = replicate (natoms (images s)) False" "ord' = []"
      by (simp_all add: tap_select_def map_False n)
    with rr d(1) None fh n show ?thesis
      by (auto simp: count_selected [of "replicate (natoms (images s)) False", simplified]
          intro: exI [of _ None])
  next
    case (Some k)
    from first_hit_Some [OF fh [unfolded Some]] have k: "k < natoms (images s)" by blast
    from Some ts tap(4) have s': "sel' = (replicate (natoms (images s)) False)[k := True]" "ord' = [k]"
      by (auto simp: tap_select_def then_do_Inr lookup_Inr map_False n)
    have "length (filter (\<lambda>a. sel' ! a) [0..<natoms (images s)]) = 1"
      using count_selected [of sel'] filter_one_hot [OF k] s' by simp
    with rr d(1) Some fh n s' show ?thesis
      by (auto intro: exI [of _ "Some k"])
  qed
qed


lemma replicate_update_same: "(replicate n v)[k := v] = replicate n v"
  by (cases "k < n") (auto simp: list_eq_iff_nth_eq nth_list_update)

lemma release_ctrl_tap_off:
  assumes tap: "ev_button ev = 1" "press_state s = Some p" "ev_time ev < t0 p + 200"
      "ev_modifier ev = Ctrl"
    and fh: "first_hit (natoms (images s)) (tap_hit s (xy p)) (rev (indices s)) = Inr (Some k)"
    and sel: "selected (images s) = (replicate (natoms (images s)) False)[k := True]"
      "selected_ordered (images s) = [k]"
    and rel: "release argsort scroll_event s ev = Inr s2"
  shows "selected (images s2) = replicate (natoms (images s)) False \<and>
         selected_ordered (images s2) = []"
proof -
  from first_hit_Some [OF fh] have k: "k < natoms (images s)" by blast
  from rel tap fh obtain sel' ord' sd where
    ts: "tap_select Ctrl (selected (images s)) (selected_ordered (images s)) (Some k)
               = Inr (sel', ord')"
    and dr: "draw argsort (s\<lparr> images := (images s)\<lparr> selected := sel' \<rparr> \<rparr>) = Inr sd"
    and rc: "reconcile sd ord' = Inr s2"
    by (auto simp: release_def then_do_Inr split: if_splits)
  note d = draw_Inr [OF dr] and rr = reconcile_Inr [OF rc]
  from ts sel k have s': "sel' = replicate (natoms (images s)) False" "ord' = []"
    by (auto simp: tap_select_def then_do_Inr lookup_Inr replicate_update_same)
  with rr d(1) show ?thesis
    by (auto simp: count_selected [of "replicate (natoms (images s)) False", simplified])
qed

subsection \<open>The examples, evaluated\<close>

lemma upt_2: "[0..<2] = [0, 1]" "[0..<Suc (Suc 0)] = [0, Suc 0]"
  by (simp_all add: upt_rec)

lemma rint_of_int [simp]: "rint (of_int k) = k"
  by (simp add: rint_def)

lemma rint_numeral [simp]: "rint (numeral k) = numeral k" "rint 0 = 0" "rint 1 = 1"
  using rint_of_int [of "numeral k"] rint_of_int [of 0] rint_of_int [of 1] by simp_all

lemmas example_defs =
  view_example_def images_example_def window_example_def view_drawn_def view_pressed_def
  view_tapped_def event_example_def scroll_example_def press_def

lemmas projection_defs =
  depths_def draw_P_def draw_X_def project_def draw_axes_matrix_def draw_offset_def vecmat_def
  draw_d_def draw_r_def draw_A_def

lemmas paint_defs =
  draw_V_def paint_atom_def paint_visible_def paint_marking_def paint_label_def
  paint_vector_def lookup_def

lemma argsort_stable_example: "argsort_stable [0, 10] = [0, 1]"
  by (simp add: argsort_stable_def upt_2)

lemma draw_example: "draw argsort_stable view_example = Inr view_drawn"
  apply (simp add: draw_def)
  apply (simp add: example_defs projection_defs argsort_stable_example)
  apply (simp add: paint_defs projection_defs)
  done

lemma release_example:
  "release argsort_stable scroll_example view_pressed (event_example 1 100 NoModifier)
     = Inr view_tapped"
  apply (simp add: release_def)
  apply (simp add: example_defs tap_hit_def lookup_def tap_select_def)
  apply (simp add: draw_def)
  apply (simp add: projection_defs argsort_stable_example)
  apply (simp add: paint_defs projection_defs reconcile_def upt_2)
  done

lemma release_ctrl_example:
  "release argsort_stable scroll_example (press view_tapped (event_example 1 300 Ctrl))
     (event_example 1 400 Ctrl) = Inr view_cleared"
  apply (simp add: release_def)
  apply (simp add: example_defs view_cleared_def tap_hit_def lookup_def tap_select_def)
  apply (simp add: draw_def)
  apply (simp add: projection_defs argsort_stable_example)
  apply (simp add: paint_defs projection_defs reconcile_def upt_2)
  done

subsection \<open>Release\<close>

text \<open>
  Claim C10. A release of a button other than 1, 4 and 5 returns at once with the view as it
  was: selection flags, ordered selection, axes, scale, centre and the contents of the window
  are all part of the view, and the view is unchanged.
\<close>

theorem release_other_button_noop:
  assumes "ev_button ev \<noteq> 1" and "ev_button ev \<noteq> 4" and "ev_button ev \<noteq> 5"
  shows "release argsort scroll_event s ev = Inr s"
  using assms by (simp add: release_def)

text \<open>The middle button on the example view.\<close>

theorem release_other_button_noop_witness:
  "release argsort_stable scroll_example view_drawn (event_example 2 100 NoModifier) = Inr view_drawn"
  using release_other_button_noop [of "event_example 2 100 NoModifier" argsort_stable
      scroll_example view_drawn]
  by (simp add: event_example_def)

text \<open>
  Claim C4. After a release of the first button that returns (a tap or a box), the ordered
  selection is as long as the number of atoms whose flag is set, or it is empty. The step
  that brings this about raises nothing for any ordered list, given only that there is one
  flag per atom: a disagreement empties the list and the release returns.
\<close>

theorem release_reconciles:
  "(ev_button ev = 1 \<and> release argsort scroll_event s ev = Inr s' \<longrightarrow>
      length (selected_ordered (images s')) = length (filter (\<lambda>b. b) (selected (images s')))
      \<or> selected_ordered (images s') = [])
   \<and> (length (selected (images sd)) = natoms (images sd) \<longrightarrow>
        (\<exists>s''. reconcile sd ordered = Inr s'' \<and>
           selected (images s'') = selected (images sd) \<and>
           (length (selected_ordered (images s'')) = length (filter (\<lambda>b. b) (selected (images s'')))
            \<or> selected_ordered (images s'') = [])))"
proof (intro conjI impI)
  assume a: "ev_button ev = 1 \<and> release argsort scroll_event s ev = Inr s'"
  then obtain sd ordered where r: "reconcile sd ordered = Inr s'"
    by (auto simp: release_def then_do_Inr split: option.splits if_splits)
  from reconcile_Inr [OF r] count_selected [of "selected (images sd)"]
  show "length (selected_ordered (images s')) = length (filter (\<lambda>b. b) (selected (images s')))
      \<or> selected_ordered (images s') = []"
    by (auto split: if_splits)
next
  assume l: "length (selected (images sd)) = natoms (images sd)"
  then show "\<exists>s''. reconcile sd ordered = Inr s'' \<and>
           selected (images s'') = selected (images sd) \<and>
           (length (selected_ordered (images s'')) = length (filter (\<lambda>b. b) (selected (images s'')))
            \<or> selected_ordered (images s'') = [])"
    using count_selected [of "selected (images sd)"]
    by (auto simp: reconcile_def)
qed

text \<open>The tap on atom 0 of the example leaves one flag and an ordered list of length one; an
  ordered list of two entries against one flag is emptied.\<close>

theorem release_reconciles_witness:
  "release argsort_stable scroll_example view_pressed (event_example 1 100 NoModifier) = Inr view_tapped
   \<and> length (selected_ordered (images view_tapped)) = 1
   \<and> length (filter (\<lambda>b. b) (selected (images view_tapped))) = 1
   \<and> reconcile view_tapped [0, 1]
       = Inr (view_tapped\<lparr> images := (images view_tapped)\<lparr> selected_ordered := [] \<rparr> \<rparr>)"
  using release_reconciles [of "event_example 1 100 NoModifier" argsort_stable scroll_example
      view_pressed view_tapped view_tapped "[0, 1]"] release_example
  by (simp add: view_tapped_def images_example_def reconcile_def upt_2)

text \<open>A tap without modifier, in terms of the hit test.\<close>

lemma tap_front_most_hit:
  assumes tap: "ev_button ev = 1" "press_state s = Some p" "ev_time ev < t0 p + 200"
      "ev_modifier ev = NoModifier"
    and drawn: "length (P s) = natoms (images s)" "\<forall>a < natoms (images s). a \<in> set (indices s)"
    and rel: "release argsort scroll_event s ev = Inr s1"
  shows "((\<forall>a < natoms (images s). \<not> tap_hit s (xy p) ! a) \<longrightarrow>
            selected (images s1) = replicate (natoms (images s)) False \<and>
            selected_ordered (images s1) = [])
       \<and> ((\<exists>a < natoms (images s). tap_hit s (xy p) ! a) \<longrightarrow>
            (\<exists>k behind front.
               indices s = behind @ k # front \<and> k < natoms (images s) \<and> tap_hit s (xy p) ! k \<and>
               (\<forall>j \<in> set front. \<not> (j < natoms (images s) \<and> tap_hit s (xy p) ! j)) \<and>
               selected (images s1) = (replicate (natoms (images s)) False)[k := True] \<and>
               selected_ordered (images s1) = [k] \<and>
               (\<forall>ev2 ev3 s2.
                  ev_button ev3 = 1 \<and> ev_time ev3 < ev_time ev2 + 200 \<and> ev_modifier ev3 = Ctrl \<and>
                  first_hit (natoms (images s1)) (tap_hit s1 (ev_x ev2, ev_y ev2)) (rev (indices s1))
                    = Inr (Some k) \<and>
                  release argsort scroll_event (press s1 ev2) ev3 = Inr s2 \<longrightarrow>
                  selected (images s2) = replicate (natoms (images s)) False \<and>
                  selected_ordered (images s2) = [])))"
proof -
  let ?n = "natoms (images s)" and ?hit = "tap_hit s (xy p)"
  from release_tap_plain [OF tap(1-3) _ rel] tap(4) obtain found where
    fh: "first_hit ?n ?hit (rev (indices s)) = Inr found"
    and n1: "natoms (images s1) = ?n"
    and sel1: "selected (images s1) =
             (case found of None \<Rightarrow> replicate ?n False | Some k \<Rightarrow> (replicate ?n False)[k := True])"
    and ord1: "selected_ordered (images s1) = (case found of None \<Rightarrow> [] | Some k \<Rightarrow> [k])"
    by auto
  show ?thesis
  proof (cases found)
    case None
    have "\<not> ?hit ! a" if "a < ?n" for a
      using first_hit_None [OF fh [unfolded None], of a] drawn(2) that by simp
    with None sel1 ord1 show ?thesis by auto
  next
    case (Some k)
    from first_hit_Some [OF fh [unfolded Some]] obtain pre post where
      idx: "rev (indices s) = pre @ k # post" and k: "k < ?n" "?hit ! k"
      and pre: "\<forall>j \<in> set pre. \<not> (j < ?n \<and> ?hit ! j)" by blast
    from idx have idx': "indices s = rev post @ k # rev pre"
      by (metis rev_append rev.simps(2) rev_rev_ident append_Cons append_Nil append_assoc)
    have again: "selected (images s2) = replicate ?n False \<and> selected_ordered (images s2) = []"
      if c: "ev_button ev3 = 1 \<and> ev_time ev3 < ev_time ev2 + 200 \<and> ev_modifier ev3 = Ctrl \<and>
          first_hit (natoms (images s1)) (tap_hit s1 (ev_x ev2, ev_y ev2)) (rev (indices s1))
            = Inr (Some k) \<and>
          release argsort scroll_event (press s1 ev2) ev3 = Inr s2" for ev2 ev3 s2
    proof -
      let ?s = "press s1 ev2"
      let ?p = "\<lparr> button = ev_button ev2, xy = (ev_x ev2, ev_y ev2), t0 = ev_time ev2,
                  axes0 = axes s1, center0 = center s1 \<rparr>"
      have ps: "press_state ?s = Some ?p" and im: "images ?s = images s1"
        and ix: "indices ?s = indices s1"
        by (simp_all add: press_def)
      have th: "tap_hit ?s (xy ?p) = tap_hit s1 (ev_x ev2, ev_y ev2)"
        by (simp add: tap_hit_def press_def)
      from release_ctrl_tap_off [of ev3 ?s ?p k argsort scroll_event s2] c ps im ix th
        sel1 ord1 Some n1
      show ?thesis by simp
    qed
    have "\<exists>k behind front.
               indices s = behind @ k # front \<and> k < ?n \<and> ?hit ! k \<and>
               (\<forall>j \<in> set front. \<not> (j < ?n \<and> ?hit ! j)) \<and>
               selected (images s1) = (replicate ?n False)[k := True] \<and>
               selected_ordered (images s1) = [k] \<and>
               (\<forall>ev2 ev3 s2.
                  ev_button ev3 = 1 \<and> ev_time ev3 < ev_time ev2 + 200 \<and> ev_modifier ev3 = Ctrl \<and>
                  first_hit (natoms (images s1)) (tap_hit s1 (ev_x ev2, ev_y ev2)) (rev (indices s1))
                    = Inr (Some k) \<and>
                  release argsort scroll_event (press s1 ev2) ev3 = Inr s2 \<longrightarrow>
                  selected (images s2) = replicate ?n False \<and>
                  selected_ordered (images s2) = [])"
      apply (rule exI [of _ k], rule exI [of _ "rev post"], rule exI [of _ "rev pre"])
      using idx' k pre sel1 ord1 Some again by simp
    with k show ?thesis by blast
  qed
qed

lemma first_hit_front:
  assumes "first_hit n hit (pre @ k # post) = Inr found"
    and "\<forall>j \<in> set pre. j < n \<longrightarrow> j < length hit \<longrightarrow> \<not> hit ! j"
    and "k < n" and "k < length hit \<longrightarrow> hit ! k"
  shows "found = Some k"
  using assms
proof (induction pre)
  case Nil
  then show ?case by (auto simp: then_do_Inr lookup_Inr split: if_splits)
next
  case (Cons a pre)
  then show ?case by (auto simp: then_do_Inr lookup_Inr split: if_splits)
qed

text \<open>
  Claim C3, as the code has it. A release of the first button less than 200 ms after the
  press, without modifier, on a view whose atoms all occur in the draw order. The circle of
  atom \<open>a\<close> that is tested has the screen position \<open>P[a]\<close> as its centre and the full radius
  \<open>scale * r[a]\<close>, whether or not the bonds are on display and the atom is drawn smaller, and
  whether or not the atom is visible; the point tested is the pointer of the press, and it
  has to lie strictly inside. When no atom's circle contains the point, the selection
  becomes empty; otherwise it becomes exactly the atom \<open>k\<close> whose circle contains the point
  and that has no such atom after it in the draw order (the one painted last, in front), and
  the ordered selection becomes \<open>[k]\<close>. A following tap with the control key at a point for
  which \<open>k\<close> is again that atom leaves the selection and the ordered selection empty.
\<close>

theorem tap_selects_front_most:
  assumes tap: "ev_button ev = 1" "press_state s = Some p" "ev_time ev < t0 p + 200"
      "ev_modifier ev = NoModifier"
    and drawn: "length (P s) = natoms (images s)" "\<forall>a < natoms (images s). a \<in> set (indices s)"
    and rel: "release argsort scroll_event s ev = Inr s1"
  shows
    "(let inside = (\<lambda>v q a. (fst (P v ! a) - fst q)\<^sup>2 + (snd (P v ! a) - snd q)\<^sup>2
                              < (scale v * r (images v) ! a)\<^sup>2);
          n = natoms (images s)
      in ((\<forall>a < n. \<not> inside s (xy p) a) \<longrightarrow>
             selected (images s1) = replicate n False \<and> selected_ordered (images s1) = [])
       \<and> ((\<exists>a < n. inside s (xy p) a) \<longrightarrow>
            (\<exists>k behind front.
               indices s = behind @ k # front \<and> k < n \<and> inside s (xy p) k \<and>
               (\<forall>j \<in> set front. \<not> (j < n \<and> inside s (xy p) j)) \<and>
               selected (images s1) = (replicate n False)[k := True] \<and>
               selected_ordered (images s1) = [k] \<and>
               (\<forall>ev2 ev3 s2 behind2 front2.
                  ev_button ev3 = 1 \<and> ev_time ev3 < ev_time ev2 + 200 \<and> ev_modifier ev3 = Ctrl \<and>
                  indices s1 = behind2 @ k # front2 \<and>
                  inside s1 (ev_x ev2, ev_y ev2) k \<and>
                  (\<forall>j \<in> set front2. \<not> (j < n \<and> inside s1 (ev_x ev2, ev_y ev2) j)) \<and>
                  release argsort scroll_event (press s1 ev2) ev3 = Inr s2 \<longrightarrow>
                  selected (images s2) = replicate n False \<and>
                  selected_ordered (images s2) = []))))"
proof -
  let ?n = "natoms (images s)"
  let ?in = "\<lambda>v q a. (fst (P v ! a) - fst q)\<^sup>2 + (snd (P v ! a) - snd q)\<^sup>2
                              < (scale v * r (images v) ! a)\<^sup>2"
  from rel tap have lr: "length (P s) = length (r (images s))"
    by (auto simp: release_def then_do_Inr split: if_splits)
  have hit: "tap_hit s (xy p) ! a \<longleftrightarrow> ?in s (xy p) a" if "a < ?n" for a
    using that drawn(1) lr by (simp add: tap_hit_nth)
  note base = tap_front_most_hit [OF tap drawn rel]
  have none: "selected (images s1) = replicate ?n False \<and> selected_ordered (images s1) = []"
    if "\<forall>a < ?n. \<not> ?in s (xy p) a"
    using that base hit by simp
  have some: "\<exists>k behind front.
               indices s = behind @ k # front \<and> k < ?n \<and> ?in s (xy p) k \<and>
               (\<forall>j \<in> set front. \<not> (j < ?n \<and> ?in s (xy p) j)) \<and>
               selected (images s1) = (replicate ?n False)[k := True] \<and>
               selected_ordered (images s1) = [k] \<and>
               (\<forall>ev2 ev3 s2 behind2 front2.
                  ev_button ev3 = 1 \<and> ev_time ev3 < ev_time ev2 + 200 \<and> ev_modifier ev3 = Ctrl \<and>
                  indices s1 = behind2 @ k # front2 \<and>
                  ?in s1 (ev_x ev2, ev_y ev2) k \<and>
                  (\<forall>j \<in> set front2. \<not> (j < ?n \<and> ?in s1 (ev_x ev2, ev_y ev2) j)) \<and>
                  release argsort scroll_event (press s1 ev2) ev3 = Inr s2 \<longrightarrow>
                  selected (images s2) = replicate ?n False \<and>
                  selected_ordered (images s2) = [])"
    if ex: "\<exists>a < ?n. ?in s (xy p) a"
  proof -
    from ex hit have "\<exists>a < ?n. tap_hit s (xy p) ! a" by blast
    with base obtain k behind front where
      idx: "indices s = behind @ k # front" and k: "k < ?n" "tap_hit s (xy p) ! k"
      and front: "\<forall>j \<in> set front. \<not> (j < ?n \<and> tap_hit s (xy p) ! j)"
      and sel1: "selected (images s1) = (replicate ?n False)[k := True]"
      and ord1: "selected_ordered (images s1) = [k]"
      and again: "\<And>ev2 ev3 s2.
                  ev_button ev3 = 1 \<and> ev_time ev3 < ev_time ev2 + 200 \<and> ev_modifier ev3 = Ctrl \<and>
                  first_hit (natoms (images s1)) (tap_hit s1 (ev_x ev2, ev_y ev2)) (rev (indices s1))
                    = Inr (Some k) \<and>
                  release argsort scroll_event (press s1 ev2) ev3 = Inr s2 \<Longrightarrow>
                  selected (images s2) = replicate ?n False \<and>
                  selected_ordered (images s2) = []"
      by blast
    from release_tap_plain [OF tap(1-3) _ rel] tap(4) have n1: "natoms (images s1) = ?n"
      by auto
    have second: "selected (images s2) = replicate ?n False \<and> selected_ordered (images s2) = []"
      if c: "ev_button ev3 = 1 \<and> ev_time ev3 < ev_time ev2 + 200 \<and> ev_modifier ev3 = Ctrl \<and>
             indices s1 = behind2 @ k # front2 \<and>
             ?in s1 (ev_x ev2, ev_y ev2) k \<and>
             (\<forall>j \<in> set front2. \<not> (j < ?n \<and> ?in s1 (ev_x ev2, ev_y ev2) j)) \<and>
             release argsort scroll_event (press s1 ev2) ev3 = Inr s2"
      for ev2 ev3 s2 behind2 front2
    proof -
      let ?q = "(ev_x ev2, ev_y ev2)"
      let ?hit = "tap_hit s1 ?q"
      from c have rel2: "release argsort scroll_event (press s1 ev2) ev3 = Inr s2"
        and b3: "ev_button ev3 = 1" and t3: "ev_time ev3 < ev_time ev2 + 200" by auto
      from rel2 b3 t3 obtain found where
        lr1: "length (P s1) = length (r (images s1))"
        and fh: "first_hit (natoms (images s1)) (tap_hit (press s1 ev2) ?q) (rev (indices s1))
                  = Inr found"
        by (auto simp: release_def press_def then_do_Inr split: if_splits)
      have th: "tap_hit (press s1 ev2) ?q = ?hit"
        by (simp add: tap_hit_def press_def)
      have nth: "?hit ! j \<longleftrightarrow> ?in s1 ?q j" if "j < length ?hit" for j
      proof -
        from that lr1 have "j < length (P s1)" "j < length (r (images s1))"
          by (simp_all add: tap_hit_def)
        then show ?thesis by (simp add: tap_hit_nth)
      qed
      from c have rv: "rev (indices s1) = rev front2 @ k # rev behind2" by simp
      have "found = Some k"
      proof (rule first_hit_front [of ?n ?hit "rev front2" k "rev behind2"])
        show "first_hit ?n ?hit (rev front2 @ k # rev behind2) = Inr found"
          using fh th rv n1 by simp
        show "\<forall>j \<in> set (rev front2). j < ?n \<longrightarrow> j < length ?hit \<longrightarrow> \<not> ?hit ! j"
          using c nth by auto
        show "k < ?n" by (rule k(1))
        show "k < length ?hit \<longrightarrow> ?hit ! k"
          using c nth by auto
      qed
      with fh th n1 have "first_hit (natoms (images s1)) ?hit (rev (indices s1)) = Inr (Some k)"
        by simp
      with again [of ev3 ev2 s2] c show ?thesis by simp
    qed
    have ink: "?in s (xy p) k" using k hit by simp
    have inf: "\<forall>j \<in> set front. \<not> (j < ?n \<and> ?in s (xy p) j)"
      using front hit by auto
    show ?thesis
      apply (rule exI [of _ k], rule exI [of _ behind], rule exI [of _ front])
      using idx k(1) sel1 ord1 second ink inf by blast
  qed
  from none some show ?thesis
    unfolding Let_def by blast
qed


text \<open>The example: the press at pixel (52, 50) is two pixels from atom 0, of radius 10, and 28
  pixels from atom 1. The tap selects atom 0, the tap with the control key deselects it.\<close>

theorem tap_selects_front_most_witness:
  "(50 - 52)\<^sup>2 + (50 - 50)\<^sup>2 < ((10 :: real) * 1)\<^sup>2
   \<and> \<not> ((80 - 52)\<^sup>2 + (50 - 50)\<^sup>2 < ((10 :: real) * 1)\<^sup>2)
   \<and> P view_pressed = [(50, 50), (80, 50)]
   \<and> release argsort_stable scroll_example view_pressed (event_example 1 100 NoModifier)
       = Inr view_tapped
   \<and> selected (images view_tapped) = [True, False]
   \<and> selected_ordered (images view_tapped) = [0]
   \<and> release argsort_stable scroll_example (press view_tapped (event_example 1 300 Ctrl))
         (event_example 1 400 Ctrl) = Inr view_cleared
   \<and> selected (images view_cleared) = [False, False]
   \<and> selected_ordered (images view_cleared) = []"
proof -
  let ?ev = "event_example 1 100 NoModifier"
  let ?p = "\<lparr> button = 1, xy = (52, 50), t0 = 0, axes0 = axes view_drawn,
              center0 = center view_drawn \<rparr>"
  have h: "ev_button ?ev = 1" "press_state view_pressed = Some ?p" "ev_time ?ev < t0 ?p + 200"
    "ev_modifier ?ev = NoModifier" "length (P view_pressed) = natoms (images view_pressed)"
    "\<forall>a < natoms (images view_pressed). a \<in> set (indices view_pressed)"
    by (auto simp: example_defs)
  have i: "(fst (P view_pressed ! 0) - fst (xy ?p))\<^sup>2 + (snd (P view_pressed ! 0) - snd (xy ?p))\<^sup>2
      < (scale view_pressed * r (images view_pressed) ! 0)\<^sup>2" "0 < natoms (images view_pressed)"
    by (simp_all add: example_defs)
  from tap_selects_front_most [OF h release_example, unfolded Let_def] i
  have "\<exists>k. selected_ordered (images view_tapped) = [k]"
    by blast
  then have "selected_ordered (images view_tapped) = [0]"
    by (simp add: example_defs)
  with release_example release_ctrl_example show ?thesis
    by (simp add: example_defs view_cleared_def)
qed

lemma draw_bonds_example: "draw argsort_stable view_bonds = Inr view_bonds_drawn"
  apply (simp add: draw_def)
  apply (simp add: view_bonds_def view_bonds_drawn_def example_defs projection_defs
      argsort_stable_example)
  apply (simp add: paint_defs projection_defs rint_def)
  done

lemma release_bonds_example:
  "release argsort_stable scroll_example (press view_bonds_drawn (event_edge 1 0 NoModifier))
     (event_edge 1 100 NoModifier) = Inr view_bonds_tapped"
  apply (simp add: release_def)
  apply (simp add: view_bonds_def view_bonds_drawn_def view_bonds_tapped_def event_edge_def
      example_defs tap_hit_def lookup_def tap_select_def)
  apply (simp add: draw_def)
  apply (simp add: projection_defs argsort_stable_example)
  apply (simp add: paint_defs projection_defs reconcile_def upt_2 rint_def)
  done

text \<open>
  Claim C3 as stated tests the circles on the screen. With the bonds on display the circles
  are drawn with radius 6.5; the press at pixel (58, 50) is eight pixels from atom 0 and 22
  from atom 1, outside both circles, and the tap selects atom 0.
\<close>

theorem tap_outside_drawn_circle_counterexample:
  "draw argsort_stable view_bonds = Inr view_bonds_drawn
   \<and> P view_bonds_drawn = [(50, 50), (80, 50)]
   \<and> draw_r view_bonds_drawn = [6.5, 6.5]
   \<and> \<not> ((50 - 58)\<^sup>2 + (50 - 50)\<^sup>2 < (6.5 :: real)\<^sup>2)
   \<and> \<not> ((80 - 58)\<^sup>2 + (50 - 50)\<^sup>2 < (6.5 :: real)\<^sup>2)
   \<and> release argsort_stable scroll_example (press view_bonds_drawn (event_edge 1 0 NoModifier))
       (event_edge 1 100 NoModifier) = Inr view_bonds_tapped
   \<and> selected (images view_bonds_tapped) = [True, False]"
proof (intro conjI)
  show "draw argsort_stable view_bonds = Inr view_bonds_drawn"
    by (rule draw_bonds_example)
  show "release argsort_stable scroll_example (press view_bonds_drawn (event_edge 1 0 NoModifier))
       (event_edge 1 100 NoModifier) = Inr view_bonds_tapped"
    by (rule release_bonds_example)
  show "P view_bonds_drawn = [(50, 50), (80, 50)]"
    by (simp add: view_bonds_drawn_def)
  show "draw_r view_bonds_drawn = [6.5, 6.5]"
    by (simp add: view_bonds_def view_bonds_drawn_def example_defs draw_r_def)
  show "selected (images view_bonds_tapped) = [True, False]"
    by (simp add: view_bonds_tapped_def)
  show "\<not> ((50 - 58)\<^sup>2 + (50 - 50)\<^sup>2 < (6.5 :: real)\<^sup>2)"
    by (simp add: power2_eq_square)
  show "\<not> ((80 - 58)\<^sup>2 + (50 - 50)\<^sup>2 < (6.5 :: real)\<^sup>2)"
    by (simp add: power2_eq_square)
qed

subsection \<open>Rotation\<close>

lemma orthonormal_iff: "orthonormal M \<longleftrightarrow> matmul (transpose3 M) M = identity3"
  by (cases M rule: prod_cases3, rename_tac r0 r1 r2, case_tac r0 rule: prod_cases3,
      case_tac r1 rule: prod_cases3, case_tac r2 rule: prod_cases3)
    (auto simp: orthonormal_def matmul_def transpose3_def identity3_def vecmat_def
      mult.commute)

lemma matmul_assoc: "matmul (matmul L M) N = matmul L (matmul M N)"
  by (cases L rule: prod_cases3, rename_tac l0 l1 l2, case_tac l0 rule: prod_cases3,
      case_tac l1 rule: prod_cases3, case_tac l2 rule: prod_cases3,
      cases M rule: prod_cases3, rename_tac r0 r1 r2, case_tac r0 rule: prod_cases3,
      case_tac r1 rule: prod_cases3, case_tac r2 rule: prod_cases3,
      cases N rule: prod_cases3, rename_tac n0 n1 n2, case_tac n0 rule: prod_cases3,
      case_tac n1 rule: prod_cases3, case_tac n2 rule: prod_cases3)
    (simp add: matmul_def vecmat_def algebra_simps)

lemma transpose3_matmul: "transpose3 (matmul M N) = matmul (transpose3 N) (transpose3 M)"
  by (cases M rule: prod_cases3, rename_tac r0 r1 r2, case_tac r0 rule: prod_cases3,
      case_tac r1 rule: prod_cases3, case_tac r2 rule: prod_cases3,
      cases N rule: prod_cases3, rename_tac n0 n1 n2, case_tac n0 rule: prod_cases3,
      case_tac n1 rule: prod_cases3, case_tac n2 rule: prod_cases3)
    (simp add: matmul_def vecmat_def transpose3_def algebra_simps)

lemma matmul_identity3: "matmul identity3 M = M"
  by (cases M rule: prod_cases3, rename_tac r0 r1 r2, case_tac r0 rule: prod_cases3,
      case_tac r1 rule: prod_cases3, case_tac r2 rule: prod_cases3)
    (simp add: matmul_def vecmat_def identity3_def)

lemma orthonormal_matmul:
  assumes "orthonormal M" and "orthonormal N"
  shows "orthonormal (matmul M N)"
proof -
  have "matmul (transpose3 (matmul M N)) (matmul M N)
      = matmul (transpose3 N) (matmul (matmul (transpose3 M) M) N)"
    by (simp add: transpose3_matmul matmul_assoc)
  also have "\<dots> = identity3"
    using assms by (simp add: orthonormal_iff matmul_identity3)
  finally show ?thesis by (simp add: orthonormal_iff)
qed

lemma rotation_entries:
  fixes a b c s :: real
  assumes u: "a\<^sup>2 + b\<^sup>2 = 1" and t: "c\<^sup>2 + s\<^sup>2 = 1"
  shows "orthonormal ((c * a * a + b * b, (c - 1) * b * a, s * a),
                      ((c - 1) * a * b, c * b * b + a * a, s * b),
                      (- s * a, - s * b, c))"
proof -
  have b2: "b\<^sup>2 = 1 - a\<^sup>2" and s2: "s\<^sup>2 = 1 - c\<^sup>2" using u t by simp_all
  show ?thesis
    unfolding orthonormal_def
    apply (simp add: power2_eq_square [symmetric])
    apply (intro conjI)
    using u t by algebra+
qed


lemma orthonormal_drag_rotation: "orthonormal (drag_rotation a0 b0)"
proof -
  define t where "t = sqrt (a0 * a0 + b0 * b0)"
  define a where "a = (if 0 < t then a0 / t else 1)"
  define b where "b = (if 0 < t then b0 / t else 0)"
  have t2: "t\<^sup>2 = a0\<^sup>2 + b0\<^sup>2"
    by (simp add: t_def power2_eq_square)
  have u: "a\<^sup>2 + b\<^sup>2 = 1"
  proof (cases "0 < t")
    case True
    then have "a\<^sup>2 + b\<^sup>2 = (a0\<^sup>2 + b0\<^sup>2) / t\<^sup>2"
      by (simp add: a_def b_def power_divide add_divide_distrib)
    also have "\<dots> = t\<^sup>2 / t\<^sup>2" by (simp only: t2)
    also from True have "\<dots> = 1" by simp
    finally show ?thesis .
  next
    case False
    then show ?thesis by (simp add: a_def b_def)
  qed
  have c: "(cos (0.01 * t))\<^sup>2 + (- sin (0.01 * t))\<^sup>2 = 1"
    by (simp add: add.commute)
  from rotation_entries [OF u c] show ?thesis
    by (simp add: drag_rotation_def Let_def t_def [symmetric] a_def [symmetric] b_def [symmetric])
qed

text \<open>
  Claim C5. A move that is handled as a rotation (a button other than the first and the second
  is down, and shift is not held): when the axes stored at the press are orthonormal, the axes
  after the move, which are the axes of the press times the rotation of the drag, are
  orthonormal again. Over the reals the columns have length one and are orthogonal exactly;
  the tolerance a float computation needs is outside the model.
\<close>

theorem move_rotation_orthonormal:
  assumes "press_state s = Some p" and "button p \<noteq> 1" and "button p \<noteq> 2"
    and "ev_modifier ev \<noteq> Shift"
    and "orthonormal (axes0 p)"
    and "move argsort s ev = Inr s'"
  shows "axes s' = matmul (axes0 p) (drag_rotation (ev_x ev - fst (xy p)) (snd (xy p) - ev_y ev))
       \<and> orthonormal (axes s')"
proof -
  from assms(1-4,6) obtain com sd where
    "draw argsort (sd :: view) = Inr s'"
    "axes sd = matmul (axes0 p) (drag_rotation (ev_x ev - fst (xy p)) (snd (xy p) - ev_y ev))"
    by (auto simp: move_def Let_def then_do_Inr split: if_splits)
  with draw_Inr(4) [of argsort sd s'] assms(5) show ?thesis
    by (simp add: orthonormal_matmul orthonormal_drag_rotation)
qed

lemma orthonormal_identity: "orthonormal ((1, 0, 0), (0, 1, 0), (0, 0, 1))"
  by (simp add: orthonormal_def)

lemma move_example_returns:
  "\<exists>s'. move argsort_stable (press view_single (event_example 3 0 NoModifier)) event_drag = Inr s'"
  apply (simp add: move_def Let_def press_def event_example_def event_drag_def rotation_pivot_def
     view_single_def view_example_def images_example_def window_example_def)
  apply (simp add: draw_def projection_defs mean0_def)
  apply (simp add: paint_defs projection_defs argsort_stable_def)
  done


text \<open>The drag of the example, by five pixels: the move returns and the axes are orthonormal.\<close>

theorem move_rotation_orthonormal_witness:
  "orthonormal (axes view_single)
   \<and> \<not> isl (move argsort_stable (press view_single (event_example 3 0 NoModifier)) event_drag)
   \<and> orthonormal
       (axes (projr (move argsort_stable (press view_single (event_example 3 0 NoModifier)) event_drag)))"
proof -
  let ?s = "press view_single (event_example 3 0 NoModifier)"
  let ?p = "\<lparr> button = 3, xy = (52, 50), t0 = 0, axes0 = axes view_single,
              center0 = center view_single \<rparr>"
  obtain s' where m: "move argsort_stable ?s event_drag = Inr s'"
    using move_example_returns by blast
  have a: "axes view_single = ((1, 0, 0), (0, 1, 0), (0, 0, 1))"
    by (simp add: view_single_def view_example_def)
  have h: "press_state ?s = Some ?p" "button ?p \<noteq> 1" "button ?p \<noteq> 2"
    "ev_modifier event_drag \<noteq> Shift" "orthonormal (axes0 ?p)"
    by (simp_all add: press_def event_example_def event_drag_def a orthonormal_identity)
  from move_rotation_orthonormal [OF h m] have "orthonormal (axes s')"
    by (rule conjunct2)
  with m a show ?thesis
    by (simp add: orthonormal_identity)
qed

subsection \<open>Orientation\<close>

text \<open>
  Claim C8. The claim asks that a displacement of length zero between the atoms marked leaves
  the orientation as it was and divides nothing by zero. \<open>toggle_orient_mode\<close> divides by the
  length without looking at it: with two marked atoms at one position the normal is the zero
  vector and its normalisation is \<open>0 / 0\<close> in every component.
\<close>

theorem toggle_orient_mode_coincident:
  "toggle_orient_mode toggle_mode_example view_coincident = Inl FloatingPointError"
  by (simp add: toggle_orient_mode_def toggle_mode_example_def view_coincident_def
      view_example_def images_example_def lookup_def normalise_def)

subsection \<open>Arrows\<close>

lemma cos_sin_atan2:
  assumes "a \<noteq> 0 \<or> b \<noteq> 0"
  shows "cos (atan2 b a) = a / sqrt (a\<^sup>2 + b\<^sup>2)" and "sin (atan2 b a) = b / sqrt (a\<^sup>2 + b\<^sup>2)"
proof -
  have r: "sqrt (1 + (b / a)\<^sup>2) = sqrt (a\<^sup>2 + b\<^sup>2) / \<bar>a\<bar>" if "a \<noteq> 0"
  proof -
    from that have "1 + (b / a)\<^sup>2 = (a\<^sup>2 + b\<^sup>2) / a\<^sup>2"
      by (simp add: power_divide field_simps)
    then show ?thesis by (simp add: real_sqrt_divide)
  qed
  have pos: "0 < sqrt (a\<^sup>2 + b\<^sup>2)"
    using assms by (auto simp: sum_power2_gt_zero_iff)
  consider "0 < a" | "a < 0" | "a = 0" "0 < b" | "a = 0" "b < 0"
    using assms by fastforce
  then have "cos (atan2 b a) = a / sqrt (a\<^sup>2 + b\<^sup>2) \<and> sin (atan2 b a) = b / sqrt (a\<^sup>2 + b\<^sup>2)"
  proof cases
    case 1
    with r pos show ?thesis
      by (simp add: atan2_def cos_arctan sin_arctan)
  next
    case 2
    with r pos show ?thesis
      by (simp add: atan2_def cos_arctan sin_arctan)
  next
    case 3
    then show ?thesis by (simp add: atan2_def)
  next
    case 4
    then show ?thesis by (simp add: atan2_def)
  qed
  then show "cos (atan2 b a) = a / sqrt (a\<^sup>2 + b\<^sup>2)"
    and "sin (atan2 b a) = b / sqrt (a\<^sup>2 + b\<^sup>2)" by simp_all
qed


text \<open>
  Claim C9, as the code has it. \<open>arrow\<close> draws the shaft at its full length, between the
  rounded end points. What is cut off at \<open>0.3 * scale\<close> is the length \<open>L\<close> of the two barbs of
  the head: \<open>L\<close> is the smaller of the shaft's length in the screen plane and \<open>0.3 * scale\<close>;
  each barb starts at distance \<open>L\<close> from the unrounded tip and ends in the rounded tip; the
  barbs point in the directions \<open>angle - 0.3\<close> and \<open>angle + 0.3\<close>, where \<open>angle\<close> is the direction
  opposite to the rounded shaft (when the rounded shaft is not a single point).
\<close>

theorem arrow_shaft_and_barbs:
  "(let L = arrow_length k (b0, b1, b2) (e0, e1, e2);
        th = arrow_angle (b0, b1, b2) (e0, e1, e2);
        dx = real_of_int (rint e0 - rint b0);
        dy = real_of_int (rint e1 - rint b1)
    in arrow k (b0, b1, b2) (e0, e1, e2) =
         [PixLine (rint b0) (rint b1) (rint e0) (rint e1),
          PixLine (rint (e0 + L * cos (th - 0.3))) (rint (e1 + L * sin (th - 0.3))) (rint e0) (rint e1),
          PixLine (rint (e0 + L * cos (th + 0.3))) (rint (e1 + L * sin (th + 0.3))) (rint e0) (rint e1)]
       \<and> L = min (sqrt ((e0 - b0)\<^sup>2 + (e1 - b1)\<^sup>2)) (0.3 * k)
       \<and> L \<le> 0.3 * k
       \<and> (L * cos (th - 0.3))\<^sup>2 + (L * sin (th - 0.3))\<^sup>2 = L\<^sup>2
       \<and> (L * cos (th + 0.3))\<^sup>2 + (L * sin (th + 0.3))\<^sup>2 = L\<^sup>2
       \<and> (dx \<noteq> 0 \<or> dy \<noteq> 0 \<longrightarrow>
            cos th = - dx / sqrt (dx\<^sup>2 + dy\<^sup>2) \<and> sin th = - dy / sqrt (dx\<^sup>2 + dy\<^sup>2)))"
proof -
  have circle: "(l * cos t)\<^sup>2 + (l * sin t)\<^sup>2 = l\<^sup>2" for l t :: real
  proof -
    have "(l * cos t)\<^sup>2 + (l * sin t)\<^sup>2 = l\<^sup>2 * (cos t)\<^sup>2 + l\<^sup>2 * (sin t)\<^sup>2"
      by (simp add: power_mult_distrib)
    also have "\<dots> = l\<^sup>2 * ((cos t)\<^sup>2 + (sin t)\<^sup>2)"
      by (rule distrib_left [symmetric])
    also have "\<dots> = l\<^sup>2"
      by simp
    finally show ?thesis .
  qed
  have direction:
    "cos (atan2 dy dx + pi) = - dx / sqrt (dx\<^sup>2 + dy\<^sup>2) \<and>
     sin (atan2 dy dx + pi) = - dy / sqrt (dx\<^sup>2 + dy\<^sup>2)"
    if "dx \<noteq> 0 \<or> dy \<noteq> 0" for dx dy :: real
    using cos_sin_atan2 [OF that] by simp
  show ?thesis
    unfolding Let_def
    apply (intro conjI)
         apply (simp add: arrow_def Let_def)
        apply (simp add: arrow_length_def)
       apply (simp add: arrow_length_def)
      apply (rule circle)
     apply (rule circle)
    apply (simp only: arrow_angle_def prod.case)
    apply (rule impI)
    apply (erule direction)
    done
qed

text \<open>A vector of 100 pixels to the right at scale 10: barbs of length 3, pointing back to
  the left.\<close>

theorem arrow_shaft_and_barbs_witness:
  "arrow_length 10 (0, 0, 0) (100, 0, 0) = 3
   \<and> cos (arrow_angle (0, 0, 0) (100, 0, 0)) = - 1
   \<and> sin (arrow_angle (0, 0, 0) (100, 0, 0)) = 0"
  using arrow_shaft_and_barbs [of 10 0 0 0 100 0 0]
  by (simp add: Let_def)

text \<open>
  Claim C9 as stated caps the length of the drawn arrow at \<open>0.3 * scale\<close>. At scale 10 the cap
  is 3 pixels, and the shaft of a vector of 100 pixels is drawn from pixel 0 to pixel 100.
\<close>

theorem arrow_length_counterexample:
  "hd (arrow 10 (0, 0, 0) (100, 0, 0)) = PixLine 0 0 100 0 \<and> \<not> (100 - 0 \<le> 0.3 * (10 :: real))"
  by (simp add: arrow_def Let_def)

subsection \<open>Circles\<close>

lemma draw_d_nth:
  "j < length (r (images s)) \<Longrightarrow>
   draw_d s ! j =
     rint (2 * (r (images s) ! j * (if show_bonds (window s) then 0.65 * scale s else scale s)))"
  by (simp add: draw_d_def draw_r_def)

lemma my_arc_circle:
  assumes "shapes (images s) = Some sh" and "j < length sh" and "sh ! j = (e, e, e)"
    and "j < length Ap" and "j < length dp"
  shows "my_arc rotation_matrix eig s fill j Xp Ap dp
           = Inr (Arc fill (fst (Ap ! j)) (snd (Ap ! j)) (dp ! j) (dp ! j) 0 23040)"
  using assms by (simp add: my_arc_def lookup_def Let_def)

text \<open>
  Claim C7, as the code has it. For an atom whose three semi-axes are equal, \<open>my_arc\<close>, called
  with the corners \<open>A\<close> and sides \<open>d\<close> that \<open>draw\<close> computes, draws the arc of a full circle in
  the box with corner \<open>A[j]\<close> and side \<open>d[j]\<close>, whatever the quaternions, the rotation matrices
  and the eigen-decomposition are. The side is the rounded diameter \<open>2 * r\<close> and the corner the
  rounded \<open>P[j] - r\<close>, where the screen radius \<open>r\<close> is the world radius times the scale, and
  0.65 times that, not half of it, when the bonds are on display.
\<close>

theorem equal_semi_axes_circle:
  assumes "shapes (images s) = Some sh" and "j < length sh" and "sh ! j = (e, e, e)"
    and "j < length (draw_A s)" and "j < length (r (images s))"
  shows "my_arc rotation_matrix eig (s\<lparr> images := (images s)\<lparr> Q := q \<rparr> \<rparr>) fill j Xp
             (draw_A s) (draw_d s)
           = Inr (Arc fill (fst (draw_A s ! j)) (snd (draw_A s ! j)) (draw_d s ! j) (draw_d s ! j)
                    0 23040)
       \<and> draw_d s ! j =
           rint (2 * (r (images s) ! j * (if show_bonds (window s) then 0.65 * scale s else scale s)))
       \<and> draw_A s ! j =
           (rint (fst (draw_P s ! j)
                  - r (images s) ! j * (if show_bonds (window s) then 0.65 * scale s else scale s)),
            rint (snd (draw_P s ! j)
                  - r (images s) ! j * (if show_bonds (window s) then 0.65 * scale s else scale s)))"
proof (intro conjI)
  have "j < length (draw_d s)"
    using assms(5) by (simp add: draw_d_def draw_r_def)
  with assms show "my_arc rotation_matrix eig (s\<lparr> images := (images s)\<lparr> Q := q \<rparr> \<rparr>) fill j Xp
             (draw_A s) (draw_d s)
           = Inr (Arc fill (fst (draw_A s ! j)) (snd (draw_A s ! j)) (draw_d s ! j) (draw_d s ! j)
                    0 23040)"
    by (intro my_arc_circle [where sh = sh and e = e]) simp_all
next
  from assms(5) show "draw_d s ! j =
           rint (2 * (r (images s) ! j * (if show_bonds (window s) then 0.65 * scale s else scale s)))"
    by (rule draw_d_nth)
next
  from assms(4) have "j < length (draw_P s)" "j < length (draw_r s)"
    by (simp_all add: draw_A_def)
  then show "draw_A s ! j =
           (rint (fst (draw_P s ! j)
                  - r (images s) ! j * (if show_bonds (window s) then 0.65 * scale s else scale s)),
            rint (snd (draw_P s ! j)
                  - r (images s) ! j * (if show_bonds (window s) then 0.65 * scale s else scale s)))"
    using assms(5) by (simp add: draw_A_def draw_r_def split_beta)
qed

lemma draw_A_example: "draw_A view_shapes = [(40, 40), (70, 40)]"
  by (simp add: view_shapes_def example_defs projection_defs)

lemma draw_d_example: "draw_d view_shapes = [20, 20]"
  by (simp add: view_shapes_def example_defs projection_defs)

text \<open>The sphere of the example: radius 1 at scale 10, a circle of diameter 20.\<close>

theorem equal_semi_axes_circle_witness:
  "my_arc (\<lambda>q. identity3) (\<lambda>m. ((1, 1), ((1, 0), (0, 1)))) view_shapes False 0 (draw_X view_shapes)
      (draw_A view_shapes) (draw_d view_shapes) = Inr (Arc False 40 40 20 20 0 23040)
   \<and> draw_d view_shapes ! 0 = 20"
proof -
  have h: "shapes (images view_shapes) = Some [(1, 1, 1), (1, 2, 3)]"
    "0 < length [(1, 1, 1), (1, 2, 3) :: vec3]"
    "[(1, 1, 1), (1, 2, 3) :: vec3] ! 0 = (1, 1, 1)"
    "0 < length (draw_A view_shapes)" "0 < length (r (images view_shapes))"
    by (simp_all add: draw_A_example) (simp_all add: view_shapes_def example_defs)
  have q: "view_shapes\<lparr> images := (images view_shapes)\<lparr> Q := [(1, 0, 0, 0), (1, 0, 0, 0)] \<rparr> \<rparr>
      = view_shapes"
    by (simp add: view_shapes_def example_defs)
  from equal_semi_axes_circle [OF h, of "\<lambda>q. identity3" "\<lambda>m. ((1, 1), ((1, 0), (0, 1)))"
      "[(1, 0, 0, 0), (1, 0, 0, 0)]" False "draw_X view_shapes"]
  show ?thesis
    by (simp add: q draw_A_example draw_d_example)
qed

text \<open>
  Claim C7 as stated halves the radius when the bonds are on display. For radius 1 at scale
  10 that would be a circle of diameter 10; \<open>draw\<close> makes the diameter 13.
\<close>

theorem bonds_radius_counterexample:
  "draw_d view_bonds ! 0 = 13
   \<and> rint (2 * (r (images view_bonds) ! 0 * scale view_bonds / 2)) = 10"
  by (simp add: view_bonds_def example_defs projection_defs)

end
